theory Spec2Isabelle
  imports Main "HOL-Library.Multiset" "HOL-Library.Sublist"
begin

section \<open>Go standard library functions used by internal/volumes\<close>

text \<open>
  Strings are byte lists.  The functions of this section are the ones of Go's
  \<^verbatim>\<open>strings\<close>, \<^verbatim>\<open>path\<close>, \<^verbatim>\<open>path/filepath\<close> (Unix) and \<^verbatim>\<open>strconv\<close>
  packages that \<^verbatim>\<open>volumes.go\<close> calls, written out so that the resolvers can be
  evaluated on concrete inputs.
\<close>

text \<open>\<^verbatim>\<open>strings.Cut(s, sep)\<close> for a one-byte separator: the text before and after the
  first occurrence of the separator, and whether it occurs.\<close>

definition Cut :: "string \<Rightarrow> char \<Rightarrow> string \<times> string \<times> bool" where
  "Cut s sep =
     (if sep \<in> set s
      then (takeWhile (\<lambda>c. c \<noteq> sep) s, tl (dropWhile (\<lambda>c. c \<noteq> sep) s), True)
      else (s, [], False))"

text \<open>\<^verbatim>\<open>strings.Split(s, sep)\<close> for a one-byte separator: never empty, one more
  element than there are separators.\<close>

fun Split :: "string \<Rightarrow> char \<Rightarrow> string list" where
  "Split [] sep = [[]]"
| "Split (c # cs) sep =
     (if c = sep then [] # Split cs sep
      else (case Split cs sep of [] \<Rightarrow> [[c]] | x # xs \<Rightarrow> (c # x) # xs))"

text \<open>\<^verbatim>\<open>strings.HasPrefix\<close>.\<close>

definition HasPrefix :: "string \<Rightarrow> string \<Rightarrow> bool" where
  "HasPrefix s p = prefix p s"

text \<open>\<^verbatim>\<open>strings.Join(elems, "/")\<close>.\<close>

fun joinSep :: "string list \<Rightarrow> string" where
  "joinSep [] = []"
| "joinSep [x] = x"
| "joinSep (x # y # ys) = x @ CHR ''/'' # joinSep (y # ys)"

text \<open>\<^verbatim>\<open>path.IsAbs\<close>.\<close>

definition IsAbs :: "string \<Rightarrow> bool" where
  "IsAbs p = (case p of [] \<Rightarrow> False | c # _ \<Rightarrow> c = CHR ''/'')"

text \<open>\<^verbatim>\<open>filepath.Clean\<close> on Unix, by path elements: empty elements and \<^verbatim>\<open>.\<close> are
  dropped, \<^verbatim>\<open>..\<close> removes the element before it, is dropped at the root and kept at the
  start of a relative path; the empty result is \<^verbatim>\<open>.\<close>.\<close>

fun cleanElems :: "bool \<Rightarrow> string list \<Rightarrow> string list \<Rightarrow> string list" where
  "cleanElems rooted acc [] = rev acc"
| "cleanElems rooted acc (c # cs) =
     (if c = [] \<or> c = ''.'' then cleanElems rooted acc cs
      else if c = ''..'' then
        (case acc of
           [] \<Rightarrow> if rooted then cleanElems rooted [] cs else cleanElems rooted [''..''] cs
         | a # as \<Rightarrow>
             if a = ''..'' then cleanElems rooted (''..'' # acc) cs
             else cleanElems rooted as cs)
      else cleanElems rooted (c # acc) cs)"

definition Clean :: "string \<Rightarrow> string" where
  "Clean p =
     (let body = joinSep (cleanElems (IsAbs p) [] (Split p (CHR ''/'')))
      in if IsAbs p then CHR ''/'' # body else if body = [] then ''.'' else body)"

text \<open>\<^verbatim>\<open>filepath.Join\<close>: leading empty elements are ignored, the rest is joined with
  the separator and cleaned; all elements empty gives the empty string.\<close>

definition Join :: "string list \<Rightarrow> string" where
  "Join elem =
     (case dropWhile (\<lambda>e. e = []) elem of
        [] \<Rightarrow> []
      | e # es \<Rightarrow> Clean (joinSep (e # es)))"

text \<open>\<^verbatim>\<open>filepath.Base\<close>: the last element, trailing slashes removed first.\<close>

definition Base :: "string \<Rightarrow> string" where
  "Base p =
     (if p = [] then ''.''
      else let q = rev (dropWhile (\<lambda>c. c = CHR ''/'') (rev p));
               b = rev (takeWhile (\<lambda>c. c \<noteq> CHR ''/'') (rev q))
           in if b = [] then ''/'' else b)"

text \<open>\<^verbatim>\<open>filepath.Dir\<close>: all but the last element, cleaned.\<close>

definition Dir :: "string \<Rightarrow> string" where
  "Dir p = Clean (rev (dropWhile (\<lambda>c. c \<noteq> CHR ''/'') (rev p)))"

text \<open>\<^verbatim>\<open>strconv.Itoa\<close>.\<close>

definition digitChar :: "nat \<Rightarrow> char" where
  "digitChar d = ''0123456789'' ! (d mod 10)"

fun showNat :: "nat \<Rightarrow> string" where
  "showNat n = (if n < 10 then [digitChar n] else showNat (n div 10) @ [digitChar n])"

declare showNat.simps [simp del]

definition Itoa :: "int \<Rightarrow> string" where
  "Itoa i = (if i < 0 then CHR ''-'' # showNat (nat (- i)) else showNat (nat i))"

text \<open>Digits of a number in a base up to ten; \<^verbatim>\<open>None\<close> for a byte that is no digit of the
  base.\<close>

definition digitVal :: "nat \<Rightarrow> char \<Rightarrow> nat option" where
  "digitVal base c =
     (let v = of_char c - (48::nat)
      in if (48::nat) \<le> of_char c \<and> v < base then Some v else None)"

fun parseDigits :: "nat \<Rightarrow> nat \<Rightarrow> string \<Rightarrow> nat option" where
  "parseDigits base acc [] = Some acc"
| "parseDigits base acc (c # cs) =
     (case digitVal base c of
        None \<Rightarrow> None
      | Some v \<Rightarrow> parseDigits base (acc * base + v) cs)"

text \<open>\<^verbatim>\<open>strconv.ParseUint(s, 8, 32)\<close>: a non-empty string of octal digits below
  \<open>2^32\<close>; no sign, no prefix.\<close>

definition ParseUint8 :: "string \<Rightarrow> nat option" where
  "ParseUint8 s =
     (if s = [] then None
      else case parseDigits 8 0 s of
             None \<Rightarrow> None
           | Some v \<Rightarrow> if v < 2 ^ 32 then Some v else None)"

text \<open>\<^verbatim>\<open>strconv.Atoi\<close>: an optional sign and decimal digits, within the 64-bit
  \<^verbatim>\<open>int\<close>.\<close>

definition Atoi :: "string \<Rightarrow> int option" where
  "Atoi s =
     (let neg = (s \<noteq> [] \<and> hd s = CHR ''-'');
          ds = (if s \<noteq> [] \<and> (hd s = CHR ''-'' \<or> hd s = CHR ''+'') then tl s else s)
      in if ds = [] then None
         else case parseDigits 10 0 ds of
                None \<Rightarrow> None
              | Some v \<Rightarrow>
                  if neg then (if v \<le> 2 ^ 63 then Some (- int v) else None)
                  else (if v < 2 ^ 63 then Some (int v) else None))"


section \<open>Data model\<close>

text \<open>\<^verbatim>\<open>specs.Mount\<close> of the OCI runtime specification, with the fields the resolvers
  read and write.\<close>

record Mount =
  Destination :: string
  Type :: string
  Source :: string
  Options :: "string list"

definition emptyMount :: Mount where
  "emptyMount = \<lparr>Destination = [], Type = [], Source = [], Options = []\<rparr>"

text \<open>\<^verbatim>\<open>internal.StageMountDetails\<close>: the two fields the resolvers read.\<close>

record StageMountDetails =
  IsImage :: bool
  MountPoint :: string

text \<open>The errors of \<^verbatim>\<open>volumes.go\<close>: its sentinel errors, the errors it formats itself,
  the errors of its collaborators (passed through unchanged), and the run-time panic of an
  out-of-range slice.\<close>

datatype error =
    ErrBadMntOption
  | ErrBadOptionArg
  | ErrBadVolDest
  | ErrBadVolSrc
  | ErrDuplicateDest
  | ErrInvalidSyntax
  | ErrInvalidFilesystemType
  | ErrRelabelTwice
  | ErrTmpfsSource
  | ErrCacheMode
  | ErrCacheUid
  | ErrCacheGid
  | ErrNoStage
  | ErrMkdirCache
  | ErrChownCache
  | ErrMkdirLockfiles
  | ErrAcquireLock
  | ErrUnrecognizedSharing
  | ErrOverlaySetup
  | ErrCollaborator
  | ErrPanic

text \<open>Whether an error wraps the sentinel \<^verbatim>\<open>errBadOptionArg\<close> (\<^verbatim>\<open>errors.Is\<close>): the
  "cannot pass 'relabel' option more than once" error does.\<close>

definition isBadOptionArg :: "error \<Rightarrow> bool" where
  "isBadOptionArg e = (e = ErrBadOptionArg \<or> e = ErrRelabelTwice)"

text \<open>The constants of the package.  \<^verbatim>\<open>TypeBind\<close> is \<^verbatim>\<open>define.TypeBind\<close>.\<close>

definition TypeBind :: string where
  \<comment> \<open>Modelled from the spec: \<^verbatim>\<open>define.TypeBind\<close> is declared outside the given sources;
      the mount grammar of the spec names the type \<^verbatim>\<open>bind\<close>.\<close>
  "TypeBind = ''bind''"

definition TypeTmpfs :: string where
  "TypeTmpfs = ''tmpfs''"

definition TypeCache :: string where
  "TypeCache = ''cache''"

definition buildahCacheDir :: string where
  "buildahCacheDir = ''buildah-cache''"

definition BuildahCacheLockfile :: string where
  "BuildahCacheLockfile = ''buildah-cache-lockfile''"

definition BuildahCacheLockfileDir :: string where
  "BuildahCacheLockfileDir = ''buildah-cache-lockfiles''"

section \<open>Collaborators and the resources they hold\<close>

text \<open>
  The resolvers call into the storage engine, the overlay package, the path validators,
  the lock files and the file system.  What these return is an input of the model: the
  record \<open>Env\<close> gives the answer of every collaborator call (\<open>None\<close> or \<open>False\<close>
  for a failing call).  The arguments \<^verbatim>\<open>sys\<close>, \<^verbatim>\<open>store\<close> and \<^verbatim>\<open>mountLabel\<close> of
  the Go functions are only handed on to collaborators and are part of \<open>Env\<close>.
\<close>

record Env =
  GetTempDir :: string
  GetRootlessUID :: int
  SelinuxEnforcing :: bool
  ValidateVolumeCtrDir :: "string \<Rightarrow> bool"
  ValidateVolumeHostDir :: "string \<Rightarrow> bool"
  ValidateVolumeOpts :: "string list \<Rightarrow> string list option"
  CopierEval :: "string \<Rightarrow> string \<Rightarrow> string option"
  LookupImage :: "string \<Rightarrow> string option"
  ImageMount :: "string \<Rightarrow> string option"
  Stat :: "string \<Rightarrow> bool option"
  OverlayTempDir :: "string \<Rightarrow> nat \<Rightarrow> string option"
  OverlayMountWithOptions :: "string \<Rightarrow> string \<Rightarrow> string \<Rightarrow> Mount option"
  MkdirAll :: "string \<Rightarrow> bool"
  MkdirAllAndChownNew :: "string \<Rightarrow> nat \<Rightarrow> int \<Rightarrow> int \<Rightarrow> bool"
  GetLockFile :: "string \<Rightarrow> bool"
  DigestEncoded :: "string \<Rightarrow> string"
  ParseVolume :: "string \<Rightarrow> Mount option"

text \<open>
  The side resources this process holds: the images it has mounted (by ID, one entry per
  mount, since the store counts mounts), the overlay temporary directories it has
  created, and the lock files it has locked (by path).  \<open>TempSeq\<close> counts the
  temporary directories created so far, so that each one can get a fresh name.
\<close>

record World =
  MountedImages :: "string list"
  OverlayTemps :: "string list"
  HeldLocks :: "string list"
  TempSeq :: nat

text \<open>The releasing calls.  Their failures are logged and dropped by the code; the model
  records the release.\<close>

definition UnmountImage :: "string \<Rightarrow> World \<Rightarrow> World" where
  "UnmountImage imageID w = w\<lparr>MountedImages := remove1 imageID (MountedImages w)\<rparr>"

definition RemoveTemp :: "string \<Rightarrow> World \<Rightarrow> World" where
  "RemoveTemp dir w = w\<lparr>OverlayTemps := remove1 dir (OverlayTemps w)\<rparr>"

definition Unlock :: "string \<Rightarrow> World \<Rightarrow> World" where
  "Unlock lock w = w\<lparr>HeldLocks := remove1 lock (HeldLocks w)\<rparr>"

text \<open>\<^verbatim>\<open>UnlockLockArray\<close>.\<close>

fun UnlockLockArray :: "string list \<Rightarrow> World \<Rightarrow> World" where
  "UnlockLockArray [] w = w"
| "UnlockLockArray (lock # locks) w = UnlockLockArray locks (Unlock lock w)"

text \<open>\<^verbatim>\<open>CacheParent\<close>.\<close>

definition CacheParent :: "Env \<Rightarrow> string" where
  "CacheParent env =
     Join [GetTempDir env, buildahCacheDir @ ''-'' @ Itoa (GetRootlessUID env)]"

text \<open>\<^verbatim>\<open>mountIsReadWrite\<close>: the last of \<^verbatim>\<open>rw\<close> and \<^verbatim>\<open>ro\<close> wins, and a mount with
  neither is read-write.\<close>

fun lastReadability :: "bool \<Rightarrow> string list \<Rightarrow> bool" where
  "lastReadability rw [] = rw"
| "lastReadability rw (option # options) =
     (if option = ''rw'' then lastReadability True options
      else if option = ''ro'' then lastReadability False options
      else lastReadability rw options)"

definition mountIsReadWrite :: "Mount \<Rightarrow> bool" where
  "mountIsReadWrite m = lastReadability True (Options m)"

definition appendOption :: "string \<Rightarrow> Mount \<Rightarrow> Mount" where
  "appendOption opt m = m\<lparr>Options := Options m @ [opt]\<rparr>"

section \<open>The overlay synthesizer\<close>

text \<open>\<^verbatim>\<open>convertToOverlay\<close>.  It returns the rewritten mount, the overlay's temporary
  directory and the error, as the Go function does.  The temporary directory is created
  first; only the branch that finds a mount of another type than \<^verbatim>\<open>bind\<close> removes it
  again before failing.\<close>

definition convertToOverlay ::
  "Env \<Rightarrow> World \<Rightarrow> Mount \<Rightarrow> string \<Rightarrow> World \<times> Mount \<times> string \<times> error option" where
  "convertToOverlay env w m tmpDir =
     (case OverlayTempDir env tmpDir (TempSeq w) of
        None \<Rightarrow> (w, emptyMount, [], Some ErrOverlaySetup)
      | Some overlayDir \<Rightarrow>
          let w1 = w\<lparr>OverlayTemps := overlayDir # OverlayTemps w, TempSeq := Suc (TempSeq w)\<rparr>
          in (case Stat env (Source m) of
                None \<Rightarrow> (w1, emptyMount, [], Some ErrOverlaySetup)
              | Some isDir \<Rightarrow>
                  if isDir then
                    (case OverlayMountWithOptions env overlayDir (Source m) (Destination m) of
                       None \<Rightarrow> (w1, emptyMount, [], Some ErrOverlaySetup)
                     | Some mountThisInstead \<Rightarrow> (w1, mountThisInstead, overlayDir, None))
                  else
                    let sourceDir = Dir (Source m);
                        sourceBase = Base (Source m);
                        destination = Destination m
                    in (case OverlayMountWithOptions env overlayDir sourceDir destination of
                          None \<Rightarrow> (w1, emptyMount, [], Some ErrOverlaySetup)
                        | Some mountedOverlay \<Rightarrow>
                            if Type mountedOverlay \<noteq> TypeBind
                            then (RemoveTemp overlayDir w1, emptyMount, [], Some ErrOverlaySetup)
                            else (w1,
                                  mountedOverlay\<lparr>Source := Join [Source mountedOverlay, sourceBase],
                                                 Destination := destination\<rparr>,
                                  overlayDir, None))))"


section \<open>The bind mount resolver\<close>

text \<open>The local variables of \<^verbatim>\<open>GetBindMount\<close> that its loop over the tokens
  updates.\<close>

record BindScan =
  newMount :: Mount
  setRelabel :: string
  mountReadability :: string
  setDest :: string
  bindNonRecursive :: bool
  fromImage :: string

definition bindInit :: BindScan where
  "bindInit =
     \<lparr>newMount = emptyMount\<lparr>Type := TypeBind\<rparr>, setRelabel = [], mountReadability = [],
      setDest = [], bindNonRecursive = False, fromImage = []\<rparr>"

text \<open>One turn of the loop: the \<^verbatim>\<open>switch argName\<close>, case by case in the order of the
  source.  An error leaves the loop and the function.\<close>

definition bindArg :: "Env \<Rightarrow> string \<Rightarrow> BindScan \<Rightarrow> string \<Rightarrow> error + BindScan" where
  "bindArg env workDir s val =
     (case Cut val (CHR ''='') of (argName, argValue, hasArgValue) \<Rightarrow>
        if argName = ''type'' then Inr s
        else if argName = ''bind-nonrecursive'' then
          Inr (s\<lparr>newMount := appendOption ''bind'' (newMount s), bindNonRecursive := True\<rparr>)
        else if argName \<in> set [''nosuid'', ''nodev'', ''noexec''] then
          Inr (s\<lparr>newMount := appendOption argName (newMount s)\<rparr>)
        else if argName \<in> set [''rw'', ''readwrite''] then
          Inr (s\<lparr>newMount := appendOption ''rw'' (newMount s), mountReadability := ''rw''\<rparr>)
        else if argName \<in> set [''ro'', ''readonly''] then
          Inr (s\<lparr>newMount := appendOption ''ro'' (newMount s), mountReadability := ''ro''\<rparr>)
        else if argName \<in> set [''shared'', ''rshared'', ''private'', ''rprivate'', ''slave'',
                                 ''rslave'', ''Z'', ''z'', ''U'', ''no-dereference''] then
          (if hasArgValue then Inl ErrBadOptionArg
           else Inr (s\<lparr>newMount := appendOption argName (newMount s)\<rparr>))
        else if argName = ''from'' then
          (if \<not> hasArgValue then Inl ErrBadOptionArg
           else Inr (s\<lparr>fromImage := argValue\<rparr>))
        else if argName = ''bind-propagation'' then
          (if \<not> hasArgValue then Inl ErrBadOptionArg
           else if argValue \<in> set [''shared'', ''rshared'', ''private'', ''rprivate'', ''slave'',
                                    ''rslave''] then
             Inr (s\<lparr>newMount := appendOption argValue (newMount s)\<rparr>)
           else Inl ErrBadMntOption)
        else if argName \<in> set [''src'', ''source''] then
          (if \<not> hasArgValue then Inl ErrBadOptionArg
           else Inr (s\<lparr>newMount := (newMount s)\<lparr>Source := argValue\<rparr>\<rparr>))
        else if argName \<in> set [''target'', ''dst'', ''destination''] then
          (if \<not> hasArgValue then Inl ErrBadOptionArg
           else
             let targetPath = (if \<not> IsAbs argValue then Join [workDir, argValue] else argValue)
             in if \<not> ValidateVolumeCtrDir env targetPath then Inl ErrCollaborator
                else Inr (s\<lparr>setDest := argValue,
                            newMount := (newMount s)\<lparr>Destination := targetPath\<rparr>\<rparr>))
        else if argName = ''relabel'' then
          (if setRelabel s \<noteq> [] then Inl ErrRelabelTwice
           else if argValue = ''private'' then
             Inr (s\<lparr>setRelabel := argValue, newMount := appendOption ''Z'' (newMount s)\<rparr>)
           else if argValue = ''shared'' then
             Inr (s\<lparr>setRelabel := argValue, newMount := appendOption ''z'' (newMount s)\<rparr>)
           else Inl ErrBadMntOption)
        else if argName = ''consistency'' then Inr s
        else Inl ErrBadMntOption)"

text \<open>The loop \<^verbatim>\<open>for _, val := range args\<close>.  On an error the function returns the mount
  built so far with the error.\<close>

fun bindArgs :: "Env \<Rightarrow> string \<Rightarrow> BindScan \<Rightarrow> string list \<Rightarrow> (error \<times> Mount) + BindScan" where
  "bindArgs env workDir s [] = Inr s"
| "bindArgs env workDir s (val # args) =
     (case bindArg env workDir s val of
        Inl e \<Rightarrow> Inl (e, newMount s)
      | Inr s' \<Rightarrow> bindArgs env workDir s' args)"

text \<open>The part of \<^verbatim>\<open>GetBindMount\<close> after the source of the content is known (lines
  252 to 296): the default \<^verbatim>\<open>rbind\<close>, the destination and source checks, the
  validation of the options and the overlay.  \<open>contextDir\<close> is the build context or
  the mount point found for \<^verbatim>\<open>from\<close>; \<open>mountedImage\<close> is the ID of the image this
  call has mounted, or empty.\<close>

definition bindFinish ::
  "Env \<Rightarrow> World \<Rightarrow> BindScan \<Rightarrow> Mount \<Rightarrow> string \<Rightarrow> string \<Rightarrow> string
     \<Rightarrow> World \<times> Mount \<times> string \<times> string \<times> error option" where
  "bindFinish env w s m0 contextDir mountedImage tmpDir =
     (let m1 = (if \<not> bindNonRecursive s then appendOption ''rbind'' m0 else m0)
      in if setDest s = [] then (w, m1, [], [], Some ErrBadVolDest)
         else
           (case (if contextDir \<noteq> [] then
                    (case CopierEval env contextDir (contextDir @ ''/'' @ Source m1) of
                       None \<Rightarrow> Inl ErrCollaborator
                     | Some evaluated \<Rightarrow> Inr (m1\<lparr>Source := evaluated\<rparr>))
                  else if Source m1 = [] then Inl ErrBadVolSrc
                  else if \<not> ValidateVolumeHostDir env (Source m1) then Inl ErrCollaborator
                  else Inr m1) of
              Inl e \<Rightarrow> (w, m1, [], [], Some e)
            | Inr m2 \<Rightarrow>
                (case ValidateVolumeOpts env (Options m2) of
                   None \<Rightarrow> (w, m2, [], [], Some ErrCollaborator)
                 | Some opts \<Rightarrow>
                     let m3 = m2\<lparr>Options := opts\<rparr>
                     in if mountedImage \<noteq> [] \<or> mountIsReadWrite m3 then
                          (case convertToOverlay env w m3 tmpDir of
                             (w1, m4, overlayDir, Some e) \<Rightarrow> (w1, m4, [], [], Some e)
                           | (w1, m4, overlayDir, None) \<Rightarrow>
                               (w1, m4, mountedImage, overlayDir, None))
                        else (w, m3, mountedImage, [], None))))"

text \<open>\<^verbatim>\<open>GetBindMount\<close>: the resolved mount, the ID of the image mounted by this call,
  the overlay temporary directory and the error.  The deferred function unmounts the image
  when the call does not reach \<^verbatim>\<open>succeeded = true\<close>.\<close>

definition GetBindMount ::
  "Env \<Rightarrow> World \<Rightarrow> string list \<Rightarrow> string \<Rightarrow> (string \<rightharpoonup> StageMountDetails) \<Rightarrow> string \<Rightarrow> string
     \<Rightarrow> World \<times> Mount \<times> string \<times> string \<times> error option" where
  "GetBindMount env w args contextDir additionalMountPoints workDir tmpDir =
     (case bindArgs env workDir bindInit args of
        Inl (e, m) \<Rightarrow> (w, m, [], [], Some e)
      | Inr s \<Rightarrow>
          let m0 = (if mountReadability s = [] then appendOption ''ro'' (newMount s)
                    else newMount s)
          in if fromImage s \<noteq> [] then
               let mountPoint = (case additionalMountPoints (fromImage s) of
                                   None \<Rightarrow> []
                                 | Some v \<Rightarrow> MountPoint v)
               in if mountPoint = [] then
                    (case LookupImage env (fromImage s) of
                       None \<Rightarrow> (w, m0, [], [], Some ErrCollaborator)
                     | Some imageID \<Rightarrow>
                         (case ImageMount env imageID of
                            None \<Rightarrow> (w, m0, [], [], Some ErrCollaborator)
                          | Some mountedAt \<Rightarrow>
                              (case bindFinish env (w\<lparr>MountedImages := imageID # MountedImages w\<rparr>)
                                      s m0 mountedAt imageID tmpDir of
                                 (w1, m, mi, od, Some e) \<Rightarrow>
                                   (UnmountImage imageID w1, m, mi, od, Some e)
                               | (w1, m, mi, od, None) \<Rightarrow> (w1, m, mi, od, None))))
                  else bindFinish env w s m0 mountPoint [] tmpDir
             else bindFinish env w s m0 contextDir [] tmpDir)"

section \<open>The tmpfs mount resolver\<close>

definition tmpfsArg ::
  "Env \<Rightarrow> string \<Rightarrow> Mount \<times> bool \<Rightarrow> string \<Rightarrow> error + Mount \<times> bool" where
  "tmpfsArg env workDir s val =
     (case Cut val (CHR ''='') of (argName, argValue, hasArgValue) \<Rightarrow>
        if argName = ''type'' then Inr s
        else if argName \<in> set [''ro'', ''nosuid'', ''nodev'', ''noexec''] then
          Inr (appendOption argName (fst s), snd s)
        else if argName = ''readonly'' then Inr (appendOption ''ro'' (fst s), snd s)
        else if argName = ''tmpcopyup'' then Inr (appendOption argName (fst s), snd s)
        else if argName = ''tmpfs-mode'' then
          (if \<not> hasArgValue then Inl ErrBadOptionArg
           else Inr (appendOption (''mode='' @ argValue) (fst s), snd s))
        else if argName = ''tmpfs-size'' then
          (if \<not> hasArgValue then Inl ErrBadOptionArg
           else Inr (appendOption (''size='' @ argValue) (fst s), snd s))
        else if argName \<in> set [''src'', ''source''] then Inl ErrTmpfsSource
        else if argName \<in> set [''target'', ''dst'', ''destination''] then
          (if \<not> hasArgValue then Inl ErrBadOptionArg
           else
             let targetPath = (if \<not> IsAbs argValue then Join [workDir, argValue] else argValue)
             in if \<not> ValidateVolumeCtrDir env targetPath then Inl ErrCollaborator
                else Inr ((fst s)\<lparr>Destination := targetPath\<rparr>, True))
        else Inl ErrBadMntOption)"

fun tmpfsArgs ::
  "Env \<Rightarrow> string \<Rightarrow> Mount \<times> bool \<Rightarrow> string list \<Rightarrow> (error \<times> Mount) + Mount \<times> bool" where
  "tmpfsArgs env workDir s [] = Inr s"
| "tmpfsArgs env workDir s (val # args) =
     (case tmpfsArg env workDir s val of
        Inl e \<Rightarrow> Inl (e, fst s)
      | Inr s' \<Rightarrow> tmpfsArgs env workDir s' args)"

text \<open>\<^verbatim>\<open>GetTmpfsMount\<close>.\<close>

definition GetTmpfsMount :: "Env \<Rightarrow> string list \<Rightarrow> string \<Rightarrow> Mount \<times> error option" where
  "GetTmpfsMount env args workDir =
     (case tmpfsArgs env workDir (emptyMount\<lparr>Type := TypeTmpfs, Source := TypeTmpfs\<rparr>, False) args of
        Inl (e, m) \<Rightarrow> (m, Some e)
      | Inr (m, dest) \<Rightarrow> if \<not> dest then (m, Some ErrBadVolDest) else (m, None))"


section \<open>The cache mount resolver\<close>

text \<open>The local variables of \<^verbatim>\<open>GetCacheMount\<close> that its loop over the tokens
  updates.\<close>

record CacheScan =
  cacheMount :: Mount
  cacheSetDest :: bool
  setShared :: bool
  setReadOnly :: bool
  foundSElinuxLabel :: bool
  fromStage :: string
  cacheID :: string
  mode :: nat
  uid :: int
  gid :: int
  sharing :: string

definition cacheInit :: CacheScan where
  "cacheInit =
     \<lparr>cacheMount = emptyMount\<lparr>Type := TypeBind\<rparr>, cacheSetDest = False, setShared = False,
      setReadOnly = False, foundSElinuxLabel = False, fromStage = [], cacheID = [],
      mode = 493, uid = 0, gid = 0, sharing = ''shared''\<rparr>"

definition cacheArg :: "Env \<Rightarrow> string \<Rightarrow> CacheScan \<Rightarrow> string \<Rightarrow> error + CacheScan" where
  "cacheArg env workDir s val =
     (case Cut val (CHR ''='') of (argName, argValue, hasArgValue) \<Rightarrow>
        if argName = ''type'' then Inr s
        else if argName \<in> set [''nosuid'', ''nodev'', ''noexec''] then
          Inr (s\<lparr>cacheMount := appendOption argName (cacheMount s)\<rparr>)
        else if argName \<in> set [''rw'', ''readwrite''] then
          Inr (s\<lparr>cacheMount := appendOption ''rw'' (cacheMount s)\<rparr>)
        else if argName \<in> set [''readonly'', ''ro''] then
          Inr (s\<lparr>cacheMount := appendOption ''ro'' (cacheMount s), setReadOnly := True\<rparr>)
        else if argName \<in> set [''Z'', ''z''] then
          Inr (s\<lparr>cacheMount := appendOption argName (cacheMount s), foundSElinuxLabel := True\<rparr>)
        else if argName \<in> set [''shared'', ''rshared'', ''private'', ''rprivate'', ''slave'',
                                 ''rslave'', ''U''] then
          Inr (s\<lparr>cacheMount := appendOption argName (cacheMount s), setShared := True\<rparr>)
        else if argName = ''sharing'' then Inr (s\<lparr>sharing := argValue\<rparr>)
        else if argName = ''bind-propagation'' then
          (if \<not> hasArgValue then Inl ErrBadOptionArg
           else if argValue \<in> set [''shared'', ''rshared'', ''private'', ''rprivate'', ''slave'',
                                    ''rslave''] then
             Inr (s\<lparr>cacheMount := appendOption argValue (cacheMount s)\<rparr>)
           else Inl ErrBadMntOption)
        else if argName = ''id'' then
          (if \<not> hasArgValue then Inl ErrBadOptionArg else Inr (s\<lparr>cacheID := argValue\<rparr>))
        else if argName = ''from'' then
          (if \<not> hasArgValue then Inl ErrBadOptionArg else Inr (s\<lparr>fromStage := argValue\<rparr>))
        else if argName \<in> set [''target'', ''dst'', ''destination''] then
          (if \<not> hasArgValue then Inl ErrBadOptionArg
           else
             let targetPath = (if \<not> IsAbs argValue then Join [workDir, argValue] else argValue)
             in if \<not> ValidateVolumeCtrDir env targetPath then Inl ErrCollaborator
                else Inr (s\<lparr>cacheMount := (cacheMount s)\<lparr>Destination := targetPath\<rparr>,
                            cacheSetDest := True\<rparr>))
        else if argName \<in> set [''src'', ''source''] then
          (if \<not> hasArgValue then Inl ErrBadOptionArg
           else Inr (s\<lparr>cacheMount := (cacheMount s)\<lparr>Source := argValue\<rparr>\<rparr>))
        else if argName = ''mode'' then
          (if \<not> hasArgValue then Inl ErrBadOptionArg
           else case ParseUint8 argValue of
                  None \<Rightarrow> Inl ErrCacheMode
                | Some v \<Rightarrow> Inr (s\<lparr>mode := v\<rparr>))
        else if argName = ''uid'' then
          (if \<not> hasArgValue then Inl ErrBadOptionArg
           else case Atoi argValue of
                  None \<Rightarrow> Inl ErrCacheUid
                | Some v \<Rightarrow> Inr (s\<lparr>uid := v\<rparr>))
        else if argName = ''gid'' then
          (if \<not> hasArgValue then Inl ErrBadOptionArg
           else case Atoi argValue of
                  None \<Rightarrow> Inl ErrCacheGid
                | Some v \<Rightarrow> Inr (s\<lparr>gid := v\<rparr>))
        else Inl ErrBadMntOption)"

fun cacheArgs :: "Env \<Rightarrow> string \<Rightarrow> CacheScan \<Rightarrow> string list \<Rightarrow> (error \<times> Mount) + CacheScan" where
  "cacheArgs env workDir s [] = Inr s"
| "cacheArgs env workDir s (val # args) =
     (case cacheArg env workDir s val of
        Inl e \<Rightarrow> Inl (e, cacheMount s)
      | Inr s' \<Rightarrow> cacheArgs env workDir s' args)"

text \<open>The name of a cache entry's directory (lines 464 to 474): the first 16 characters of
  the digest of the \<^verbatim>\<open>id\<close>, or of the destination when the \<^verbatim>\<open>id\<close> is empty.  The
  Go slice expression \<^verbatim>\<open>[:16]\<close> panics on a shorter string.\<close>

definition cacheDirID :: "Env \<Rightarrow> string \<Rightarrow> string \<Rightarrow> string option" where
  "cacheDirID env ident destination =
     (let encoded = DigestEncoded env (if ident \<noteq> [] then ident else destination)
      in if length encoded < 16 then None else Some (take 16 encoded))"

text \<open>Where the content of a cache mount comes from (lines 429 to 491): a stage's mount
  point, or the host cache.  The result is the mount with its source and the value of
  \<^verbatim>\<open>buildahLockFilesDir\<close>, which only the host-cache branch assigns; a failure comes
  with the mount as it is at the failing \<^verbatim>\<open>return\<close> (the host-cache source is assigned
  before the cache directory and the lock directory are created).\<close>

definition cacheSource ::
  "Env \<Rightarrow> CacheScan \<Rightarrow> Mount \<Rightarrow> (string \<rightharpoonup> StageMountDetails)
     \<Rightarrow> (error \<times> Mount) + (Mount \<times> string)" where
  "cacheSource env s m additionalMountPoints =
     (if fromStage s \<noteq> [] then
        let mountPoint = (case additionalMountPoints (fromStage s) of
                            None \<Rightarrow> []
                          | Some v \<Rightarrow> if \<not> IsImage v then MountPoint v else [])
        in if mountPoint = [] then Inl (ErrNoStage, m)
           else (case CopierEval env mountPoint (mountPoint @ ''/'' @ Source m) of
                   None \<Rightarrow> Inl (ErrCollaborator, m)
                 | Some evaluated \<Rightarrow> Inr (m\<lparr>Source := evaluated\<rparr>, []))
      else
        let cacheParent = CacheParent env
        in if \<not> MkdirAll env cacheParent then Inl (ErrMkdirCache, m)
           else (case cacheDirID env (cacheID s) (Destination m) of
                   None \<Rightarrow> Inl (ErrPanic, m)
                 | Some dirID \<Rightarrow>
                     let m1 = m\<lparr>Source := Join [cacheParent, dirID]\<rparr>;
                         buildahLockFilesDir = Join [BuildahCacheLockfileDir, dirID]
                     in if \<not> MkdirAllAndChownNew env (Source m1) (mode s) (uid s) (gid s)
                        then Inl (ErrChownCache, m1)
                        else
                          let buildahLockFilesDir' = Join [cacheParent, buildahLockFilesDir]
                          in if \<not> MkdirAll env buildahLockFilesDir'
                             then Inl (ErrMkdirLockfiles, m1)
                             else Inr (m1, buildahLockFilesDir')))"

text \<open>\<^verbatim>\<open>GetCacheMount\<close>: the resolved mount, the lock it holds (the path of the lock
  file, \<open>None\<close> for Go's \<^verbatim>\<open>nil\<close>) and the error.  The deferred function releases the
  lock when the call does not reach \<^verbatim>\<open>succeeded = true\<close>.

  \<^verbatim>\<open>lockfile.Lock()\<close> waits until the lock file is free.  A lock file this process
  already holds is never free while the call waits, so the call does not return: the
  result of the model is then \<open>None\<close>, and \<open>Some\<close> of the returned values otherwise.
  Waiting for a lock held by another process ends when that process releases it and is
  not part of the model.\<close>

definition GetCacheMount ::
  "Env \<Rightarrow> World \<Rightarrow> string list \<Rightarrow> (string \<rightharpoonup> StageMountDetails) \<Rightarrow> string
     \<Rightarrow> (World \<times> Mount \<times> string option \<times> error option) option" where
  "GetCacheMount env w args additionalMountPoints workDir =
     (case cacheArgs env workDir cacheInit args of
        Inl (e, m) \<Rightarrow> Some (w, m, None, Some e)
      | Inr s \<Rightarrow>
          let m0 = (if \<not> foundSElinuxLabel s \<and> SelinuxEnforcing env \<and> fromStage s = []
                    then appendOption ''z'' (cacheMount s) else cacheMount s)
          in if \<not> cacheSetDest s then Some (w, m0, None, Some ErrBadVolDest)
             else
               (case cacheSource env s m0 additionalMountPoints of
                  Inl (e, m) \<Rightarrow> Some (w, m, None, Some e)
                | Inr (m1, buildahLockFilesDir) \<Rightarrow>
                    if sharing s = ''locked'' then
                      let lockPath = Join [buildahLockFilesDir, BuildahCacheLockfile]
                      in if \<not> GetLockFile env lockPath
                         then Some (w, m1, None, Some ErrAcquireLock)
                         else if lockPath \<in> set (HeldLocks w) then None
                         else
                           let w1 = w\<lparr>HeldLocks := lockPath # HeldLocks w\<rparr>;
                               m2 = (if \<not> setShared s then appendOption ''shared'' m1 else m1);
                               m3 = (if \<not> setReadOnly s then appendOption ''rw'' m2 else m2);
                               m4 = appendOption ''bind'' m3
                           in (case ValidateVolumeOpts env (Options m4) of
                                 None \<Rightarrow>
                                   Some (Unlock lockPath w1, m4, None, Some ErrCollaborator)
                               | Some opts \<Rightarrow>
                                   Some (w1, m4\<lparr>Options := opts\<rparr>, Some lockPath, None))
                    else if sharing s = ''shared'' then
                      let m2 = (if \<not> setShared s then appendOption ''shared'' m1 else m1);
                          m3 = (if \<not> setReadOnly s then appendOption ''rw'' m2 else m2);
                          m4 = appendOption ''bind'' m3
                      in (case ValidateVolumeOpts env (Options m4) of
                            None \<Rightarrow> Some (w, m4, None, Some ErrCollaborator)
                          | Some opts \<Rightarrow> Some (w, m4\<lparr>Options := opts\<rparr>, None, None))
                    else Some (w, m1, None, Some ErrUnrecognizedSharing)))"

section \<open>The aggregator\<close>

text \<open>\<^verbatim>\<open>getVolumeMounts\<close>: the \<^verbatim>\<open>--volume\<close> strings, parsed by
  \<^verbatim>\<open>internalParse.Volume\<close> and keyed by destination.  A Go map with distinct keys is
  an association list here, in the order of insertion.\<close>

fun getVolumeMountsLoop ::
  "Env \<Rightarrow> (string \<times> Mount) list \<Rightarrow> string list \<Rightarrow> error + (string \<times> Mount) list" where
  "getVolumeMountsLoop env finalVolumeMounts [] = Inr finalVolumeMounts"
| "getVolumeMountsLoop env finalVolumeMounts (volume # volumes) =
     (case ParseVolume env volume of
        None \<Rightarrow> Inl ErrCollaborator
      | Some volumeMount \<Rightarrow>
          if map_of finalVolumeMounts (Destination volumeMount) \<noteq> None then Inl ErrDuplicateDest
          else getVolumeMountsLoop env
                 (finalVolumeMounts @ [(Destination volumeMount, volumeMount)]) volumes)"

definition getVolumeMounts :: "Env \<Rightarrow> string list \<Rightarrow> error + (string \<times> Mount) list" where
  "getVolumeMounts env volumes = getVolumeMountsLoop env [] volumes"

text \<open>The deferred function of \<^verbatim>\<open>getMounts\<close> and of \<^verbatim>\<open>GetVolumes\<close>: remove the
  overlay directories, unmount the images, release the locks.\<close>

definition rollback :: "string list \<Rightarrow> string list \<Rightarrow> string list \<Rightarrow> World \<Rightarrow> World" where
  "rollback overlayDirs mountedImages targetLocks w =
     UnlockLockArray targetLocks
       (foldl (\<lambda>w' mountedImage. UnmountImage mountedImage w')
          (foldl (\<lambda>w' overlayDir. RemoveTemp overlayDir w') w overlayDirs) mountedImages)"

text \<open>The variables of \<^verbatim>\<open>getMounts\<close> that live across the turns of its loop.
  \<^verbatim>\<open>mountType\<close> is declared before the loop and assigned inside it.\<close>

record MountsState =
  mountType :: string
  finalMounts :: "(string \<times> Mount) list"
  mountedImages :: "string list"
  overlayDirs :: "string list"
  targetLocks :: "string list"

definition mountsInit :: MountsState where
  "mountsInit =
     \<lparr>mountType = TypeBind, finalMounts = [], mountedImages = [], overlayDirs = [],
      targetLocks = []\<rparr>"

text \<open>The scan of one mount's tokens for \<^verbatim>\<open>type=\<close> (lines 650 to 658).  \<open>None\<close> is
  the syntax error of a \<^verbatim>\<open>type=\<close> token with a second \<^verbatim>\<open>=\<close>.\<close>

fun scanType :: "string \<Rightarrow> string list \<Rightarrow> string option" where
  "scanType mt [] = Some mt"
| "scanType mt (field # rest) =
     (if HasPrefix field ''type='' then
        (case Split field (CHR ''='') of
           [k, v] \<Rightarrow> scanType v rest
         | _ \<Rightarrow> None)
      else scanType mt rest)"

text \<open>One turn of the loop of \<^verbatim>\<open>getMounts\<close> (lines 646 to 698).  The turn does not
  return (\<open>None\<close>) when the cache resolver waits for a lock for ever.\<close>

definition getMountsStep ::
  "Env \<Rightarrow> string \<Rightarrow> string \<Rightarrow> string \<Rightarrow> World \<Rightarrow> MountsState \<Rightarrow> string
     \<Rightarrow> (World \<times> MountsState \<times> error option) option" where
  "getMountsStep env contextDir workDir tmpDir w st mountSpec =
     (let tokens = Split mountSpec (CHR '','')
      in if length tokens < 2 then Some (w, st, Some ErrInvalidSyntax)
         else
           (case scanType (mountType st) tokens of
              None \<Rightarrow> Some (w, st, Some ErrInvalidSyntax)
            | Some mt \<Rightarrow>
                let st1 = st\<lparr>mountType := mt\<rparr>
                in if mt = TypeBind then
                     (case GetBindMount env w tokens contextDir Map.empty workDir tmpDir of
                        (w1, m, imageID, overlayDir, Some e) \<Rightarrow> Some (w1, st1, Some e)
                      | (w1, m, imageID, overlayDir, None) \<Rightarrow>
                          let st2 = (if imageID \<noteq> []
                                     then st1\<lparr>mountedImages := mountedImages st1 @ [imageID]\<rparr>
                                     else st1);
                              st3 = (if overlayDir \<noteq> []
                                     then st2\<lparr>overlayDirs := overlayDirs st2 @ [overlayDir]\<rparr>
                                     else st2)
                          in if map_of (finalMounts st3) (Destination m) \<noteq> None
                             then Some (w1, st3, Some ErrDuplicateDest)
                             else Some (w1,
                                        st3\<lparr>finalMounts := finalMounts st3 @ [(Destination m, m)]\<rparr>,
                                        None))
                   else if mt = TypeCache then
                     (case GetCacheMount env w tokens Map.empty workDir of
                        None \<Rightarrow> None
                      | Some (w1, m, lock, Some e) \<Rightarrow> Some (w1, st1, Some e)
                      | Some (w1, m, lock, None) \<Rightarrow>
                          let st2 = (case lock of
                                       None \<Rightarrow> st1
                                     | Some l \<Rightarrow> st1\<lparr>targetLocks := targetLocks st1 @ [l]\<rparr>)
                          in if map_of (finalMounts st2) (Destination m) \<noteq> None
                             then Some (w1, st2, Some ErrDuplicateDest)
                             else Some (w1,
                                        st2\<lparr>finalMounts := finalMounts st2 @ [(Destination m, m)]\<rparr>,
                                        None))
                   else if mt = TypeTmpfs then
                     (case GetTmpfsMount env tokens workDir of
                        (m, Some e) \<Rightarrow> Some (w, st1, Some e)
                      | (m, None) \<Rightarrow>
                          if map_of (finalMounts st1) (Destination m) \<noteq> None
                          then Some (w, st1, Some ErrDuplicateDest)
                          else Some (w,
                                     st1\<lparr>finalMounts := finalMounts st1 @ [(Destination m, m)]\<rparr>,
                                     None))
                   else Some (w, st1, Some ErrInvalidFilesystemType)))"

fun getMountsLoop ::
  "Env \<Rightarrow> string \<Rightarrow> string \<Rightarrow> string \<Rightarrow> World \<Rightarrow> MountsState \<Rightarrow> string list
     \<Rightarrow> (World \<times> MountsState \<times> error option) option" where
  "getMountsLoop env contextDir workDir tmpDir w st [] = Some (w, st, None)"
| "getMountsLoop env contextDir workDir tmpDir w st (mountSpec # mounts) =
     (case getMountsStep env contextDir workDir tmpDir w st mountSpec of
        None \<Rightarrow> None
      | Some (w1, st1, Some e) \<Rightarrow> Some (w1, st1, Some e)
      | Some (w1, st1, None) \<Rightarrow> getMountsLoop env contextDir workDir tmpDir w1 st1 mounts)"

text \<open>\<^verbatim>\<open>getMounts\<close>: on success the mounts by destination, the mounted images, the
  overlay directories and the locks; on an error the deferred function has run and all four
  results are \<^verbatim>\<open>nil\<close>.  \<open>None\<close>: the call does not return.\<close>

definition getMounts ::
  "Env \<Rightarrow> World \<Rightarrow> string list \<Rightarrow> string \<Rightarrow> string \<Rightarrow> string
     \<Rightarrow> (World \<times> (error + (string \<times> Mount) list \<times> string list \<times> string list \<times> string list))
          option" where
  "getMounts env w mounts contextDir workDir tmpDir =
     (case getMountsLoop env contextDir workDir tmpDir w mountsInit mounts of
        None \<Rightarrow> None
      | Some (w1, st, Some e) \<Rightarrow>
          Some (rollback (overlayDirs st) (mountedImages st) (targetLocks st) w1, Inl e)
      | Some (w1, st, None) \<Rightarrow>
          Some (w1, Inr (finalMounts st, mountedImages st, overlayDirs st, targetLocks st)))"

text \<open>The loop of \<^verbatim>\<open>GetVolumes\<close> that adds the volume mounts to the mounts of
  \<^verbatim>\<open>--mount\<close> (lines 594 to 599).  Go visits the map in no fixed order; the keys are
  distinct, so the order changes neither whether the loop fails nor the final map.\<close>

fun unifyLoop :: "(string \<times> Mount) list \<Rightarrow> (string \<times> Mount) list \<Rightarrow> error + (string \<times> Mount) list" where
  "unifyLoop unifiedMounts [] = Inr unifiedMounts"
| "unifyLoop unifiedMounts ((dest, m) # volumeMounts) =
     (if map_of unifiedMounts dest \<noteq> None then Inl ErrDuplicateDest
      else unifyLoop (unifiedMounts @ [(dest, m)]) volumeMounts)"

text \<open>\<^verbatim>\<open>GetVolumes\<close>.  The returned list of mounts is in the order of the association
  list; Go's order is that of a map iteration.  \<open>None\<close>: the call does not return.\<close>

definition GetVolumes ::
  "Env \<Rightarrow> World \<Rightarrow> string list \<Rightarrow> string list \<Rightarrow> string \<Rightarrow> string \<Rightarrow> string
     \<Rightarrow> (World \<times> (error + Mount list \<times> string list \<times> string list \<times> string list)) option" where
  "GetVolumes env w volumes mounts contextDir workDir tmpDir =
     (case getMounts env w mounts contextDir workDir tmpDir of
        None \<Rightarrow> None
      | Some (w1, Inl e) \<Rightarrow> Some (w1, Inl e)
      | Some (w1, Inr (unifiedMounts, images, overlays, locks)) \<Rightarrow>
          (case getVolumeMounts env volumes of
             Inl e \<Rightarrow> Some (rollback overlays images locks w1, Inl e)
           | Inr volumeMounts \<Rightarrow>
               (case unifyLoop unifiedMounts volumeMounts of
                  Inl e \<Rightarrow> Some (rollback overlays images locks w1, Inl e)
                | Inr unified \<Rightarrow> Some (w1, Inr (map snd unified, images, overlays, locks)))))"

section \<open>An example host\<close>

text \<open>
  A host on which the resolvers can be run: \<^verbatim>\<open>/var/tmp\<close> as temporary directory, user 0,
  SELinux disabled, one image \<^verbatim>\<open>busybox\<close>, every directory creation and lock
  succeeding.  Its option validator accepts a list with at most one option of each group
  and returns it unchanged; its overlay package mounts over a lower layer that is a
  directory only, and returns a bind mount of the merged directory with the options
  \<^verbatim>\<open>bind\<close> and \<^verbatim>\<open>slave\<close>; its digest is a toy one (the hexadecimal bytes of the
  string, padded to 64 characters).  \<^verbatim>\<open>/src/file\<close> is a file, \<^verbatim>\<open>/missing\<close> does not
  exist, every other path is a directory.
\<close>

definition atMostOneOf :: "string list \<Rightarrow> string list \<Rightarrow> bool" where
  "atMostOneOf grp options = (length (filter (\<lambda>opt. opt \<in> set grp) options) \<le> 1)"

definition hostValidateOpts :: "string list \<Rightarrow> string list option" where
  "hostValidateOpts options =
     (if atMostOneOf [''noexec'', ''exec''] options
         \<and> atMostOneOf [''nodev'', ''dev''] options
         \<and> atMostOneOf [''nosuid'', ''suid''] options
         \<and> atMostOneOf [''rw'', ''ro''] options
         \<and> atMostOneOf [''z'', ''Z'', ''O''] options
         \<and> atMostOneOf [''U''] options
         \<and> atMostOneOf [''private'', ''rprivate'', ''shared'', ''rshared'', ''slave'',
                          ''rslave'', ''unbindable'', ''runbindable''] options
         \<and> atMostOneOf [''bind'', ''rbind''] options
      then Some options else None)"

definition hexChar :: "nat \<Rightarrow> char" where
  "hexChar d = ''0123456789abcdef'' ! (d mod 16)"

definition hostDigest :: "string \<Rightarrow> string" where
  "hostDigest s =
     take 64 (concat (map (\<lambda>c. [hexChar (of_char c div 16), hexChar (of_char c)]) s)
              @ replicate 64 (CHR ''0''))"

definition hostParseVolume :: "string \<Rightarrow> Mount option" where
  "hostParseVolume volume =
     (case Split volume (CHR '':'') of
        [src, dst] \<Rightarrow>
          Some \<lparr>Destination = dst, Type = TypeBind, Source = src, Options = [''rbind'']\<rparr>
      | _ \<Rightarrow> None)"

definition hostStat :: "string \<Rightarrow> bool option" where
  "hostStat p = (if p = ''/missing'' then None else Some (p \<noteq> ''/src/file''))"

definition hostEnv :: Env where
  "hostEnv =
     \<lparr>GetTempDir = ''/var/tmp'',
      GetRootlessUID = 0,
      SelinuxEnforcing = False,
      ValidateVolumeCtrDir = IsAbs,
      ValidateVolumeHostDir = IsAbs,
      ValidateVolumeOpts = hostValidateOpts,
      CopierEval = (\<lambda>root p. Some (Clean p)),
      LookupImage = (\<lambda>name. if name = ''busybox'' then Some ''img1'' else None),
      ImageMount = (\<lambda>imageID. Some (''/mnt/'' @ imageID)),
      Stat = hostStat,
      OverlayTempDir = (\<lambda>tmpDir k. Some (Join [tmpDir, ''overlay'' @ showNat k])),
      OverlayMountWithOptions =
        (\<lambda>overlayDir source dest.
           if hostStat source = Some True
           then Some \<lparr>Destination = dest, Type = TypeBind, Source = Join [overlayDir, ''merge''],
                      Options = [''bind'', ''slave'']\<rparr>
           else None),
      MkdirAll = (\<lambda>p. True),
      MkdirAllAndChownNew = (\<lambda>p m u g. True),
      GetLockFile = (\<lambda>p. True),
      DigestEncoded = hostDigest,
      ParseVolume = hostParseVolume\<rparr>"

definition emptyWorld :: World where
  "emptyWorld = \<lparr>MountedImages = [], OverlayTemps = [], HeldLocks = [], TempSeq = 0\<rparr>"

text \<open>The additional mount points of the example: one stage, mounted at
  \<^verbatim>\<open>/stages/1\<close>.\<close>

definition stageOne :: "string \<rightharpoonup> StageMountDetails" where
  "stageOne = [''stage1'' \<mapsto> \<lparr>IsImage = False, MountPoint = ''/stages/1''\<rparr>]"

section \<open>Notions used in the statements\<close>

text \<open>The key of a token: what \<^verbatim>\<open>strings.Cut\<close> leaves before the first \<^verbatim>\<open>=\<close>.\<close>

definition argNameOf :: "string \<Rightarrow> string" where
  "argNameOf val = fst (Cut val (CHR ''=''))"

text \<open>The SELinux relabel markers among mount options, and how many of them a list of
  options holds.\<close>

definition isLabel :: "string \<Rightarrow> bool" where
  "isLabel opt = (opt \<in> set [''z'', ''Z'', ''O''])"

definition labels :: "string list \<Rightarrow> nat" where
  "labels opts = length (filter isLabel opts)"

text \<open>The readability options.\<close>

definition isReadability :: "string \<Rightarrow> bool" where
  "isReadability opt = (opt \<in> set [''rw'', ''ro''])"

text \<open>The side resources held in a world, as multisets: an image mounted twice is held
  twice.\<close>

definition held :: "World \<Rightarrow> string multiset \<times> string multiset \<times> string multiset" where
  "held w = (mset (MountedImages w), mset (OverlayTemps w), mset (HeldLocks w))"

text \<open>The storage engine names every image and the overlay package every temporary
  directory: the resolvers and \<^verbatim>\<open>getMounts\<close> take the empty string for "none".\<close>

definition handlesNonEmpty :: "Env \<Rightarrow> bool" where
  "handlesNonEmpty env =
     ((\<forall>name. LookupImage env name \<noteq> Some []) \<and> (\<forall>tmpDir k. OverlayTempDir env tmpDir k \<noteq> Some []))"

text \<open>
  What the entries of a batch resolve to.  \<open>resolveEntry\<close> is the resolution of one
  \<^verbatim>\<open>--mount\<close> string as the loop of \<^verbatim>\<open>getMounts\<close> dispatches it (the same token
  split, type scan and resolver call), without the bookkeeping and the duplicate check of
  the loop; \<open>entryDestinations\<close> resolves the given strings in turn and lists the
  destinations, and is \<open>None\<close> when one of them does not resolve (its resolver fails
  or does not return).
  \<open>volumeDestinations\<close> does the same for the \<^verbatim>\<open>--volume\<close> strings.
\<close>

definition resolveEntry ::
  "Env \<Rightarrow> string \<Rightarrow> string \<Rightarrow> string \<Rightarrow> World \<Rightarrow> string \<Rightarrow> string
     \<Rightarrow> (World \<times> string \<times> Mount) option" where
  "resolveEntry env contextDir workDir tmpDir w mt mountSpec =
     (let tokens = Split mountSpec (CHR '','')
      in if length tokens < 2 then None
         else
           (case scanType mt tokens of
              None \<Rightarrow> None
            | Some mt1 \<Rightarrow>
                if mt1 = TypeBind then
                  (case GetBindMount env w tokens contextDir Map.empty workDir tmpDir of
                     (w1, m, imageID, overlayDir, None) \<Rightarrow> Some (w1, mt1, m)
                   | (w1, m, imageID, overlayDir, Some e) \<Rightarrow> None)
                else if mt1 = TypeCache then
                  (case GetCacheMount env w tokens Map.empty workDir of
                     None \<Rightarrow> None
                   | Some (w1, m, lock, None) \<Rightarrow> Some (w1, mt1, m)
                   | Some (w1, m, lock, Some e) \<Rightarrow> None)
                else if mt1 = TypeTmpfs then
                  (case GetTmpfsMount env tokens workDir of
                     (m, None) \<Rightarrow> Some (w, mt1, m)
                   | (m, Some e) \<Rightarrow> None)
                else None))"

fun entryDestinations ::
  "Env \<Rightarrow> string \<Rightarrow> string \<Rightarrow> string \<Rightarrow> World \<Rightarrow> string \<Rightarrow> string list
     \<Rightarrow> string list option" where
  "entryDestinations env contextDir workDir tmpDir w mt [] = Some []"
| "entryDestinations env contextDir workDir tmpDir w mt (mountSpec # mounts) =
     (case resolveEntry env contextDir workDir tmpDir w mt mountSpec of
        None \<Rightarrow> None
      | Some (w1, mt1, m) \<Rightarrow>
          map_option (\<lambda>ds. Destination m # ds)
            (entryDestinations env contextDir workDir tmpDir w1 mt1 mounts))"

fun volumeDestinations :: "Env \<Rightarrow> string list \<Rightarrow> string list option" where
  "volumeDestinations env [] = Some []"
| "volumeDestinations env (volume # volumes) =
     (case ParseVolume env volume of
        None \<Rightarrow> None
      | Some m \<Rightarrow> map_option (\<lambda>ds. Destination m # ds) (volumeDestinations env volumes))"

text \<open>The directory a bind mount's source is looked up in (lines 221 to 250): the build
  context, or for \<^verbatim>\<open>from\<close> the mount point recorded for the name, or else the mount
  point of the image of that name; \<open>None\<close> when the image cannot be found or mounted.
  \<open>bindEvaluatedSource\<close> is the source after lines 262 to 279: evaluated inside that
  directory, or, without one, the host path as given; \<open>None\<close> when the call fails
  there.\<close>

definition bindContextDir ::
  "Env \<Rightarrow> BindScan \<Rightarrow> string \<Rightarrow> (string \<rightharpoonup> StageMountDetails) \<Rightarrow> string option" where
  "bindContextDir env s contextDir additionalMountPoints =
     (if fromImage s = [] then Some contextDir
      else
        let mountPoint = (case additionalMountPoints (fromImage s) of
                            None \<Rightarrow> []
                          | Some v \<Rightarrow> MountPoint v)
        in if mountPoint \<noteq> [] then Some mountPoint
           else (case LookupImage env (fromImage s) of
                   None \<Rightarrow> None
                 | Some imageID \<Rightarrow> ImageMount env imageID))"

definition bindEvaluatedSource :: "Env \<Rightarrow> string \<Rightarrow> string \<Rightarrow> string option" where
  "bindEvaluatedSource env contextDir source =
     (if contextDir \<noteq> [] then CopierEval env contextDir (contextDir @ ''/'' @ source)
      else if source \<noteq> [] \<and> ValidateVolumeHostDir env source then Some source
      else None)"

text \<open>What names the host directory of a cache mount (lines 464 to 474): the id when it is
  not empty, the destination otherwise.\<close>

definition cacheKey :: "CacheScan \<Rightarrow> string" where
  "cacheKey s = (if cacheID s \<noteq> [] then cacheID s else Destination (cacheMount s))"

text \<open>The bookkeeping of \<^verbatim>\<open>getMounts\<close> accounts for the world: what is held is what
  was held at the start (\<open>base\<close>) and what the lists of the loop record.\<close>

definition accounted ::
  "string multiset \<times> string multiset \<times> string multiset \<Rightarrow> World \<Rightarrow> MountsState \<Rightarrow> bool" where
  "accounted base w st =
     (held w = (fst base + mset (mountedImages st),
                fst (snd base) + mset (overlayDirs st),
                snd (snd base) + mset (targetLocks st)))"

section \<open>The loop of the batch resolver\<close>

lemma getMountsLoop_append:
  "getMountsLoop env c wd t w st (xs @ ys) =
     (case getMountsLoop env c wd t w st xs of
        None \<Rightarrow> None
      | Some (w1, st1, Some e) \<Rightarrow> Some (w1, st1, Some e)
      | Some (w1, st1, None) \<Rightarrow> getMountsLoop env c wd t w1 st1 ys)"
  by (induction xs arbitrary: w st) (auto split: prod.splits option.splits)

lemma getMountsStep_short:
  "length (Split mountSpec (CHR '','')) < 2 \<Longrightarrow>
     getMountsStep env c wd t w st mountSpec = Some (w, st, Some ErrInvalidSyntax)"
  by (simp add: getMountsStep_def)

lemma getMountsLoop_short:
  assumes "length (Split mountSpec (CHR '','')) < 2"
  shows "getMountsLoop env c wd t w st (before @ mountSpec # after) =
           (case getMountsLoop env c wd t w st before of
              None \<Rightarrow> None
            | Some (w1, st1, Some e) \<Rightarrow> Some (w1, st1, Some e)
            | Some (w1, st1, None) \<Rightarrow> Some (w1, st1, Some ErrInvalidSyntax))"
  using assms
  by (auto simp: getMountsLoop_append getMountsStep_short split: prod.splits option.splits)

section \<open>Malformed mount specifications\<close>

text \<open>
  Claim C9.  A mount specification that splits into fewer than two comma-separated tokens
  makes the batch fail: a batch that holds such a string returns an error, unless the
  strings before it already keep the call from returning.  When the strings
  before it have resolved (the batch of them alone succeeds, leaving the world \<open>w1\<close> and the
  side resources \<open>images\<close>, \<open>overlays\<close>, \<open>locks\<close>), both \<^verbatim>\<open>getMounts\<close> and
  \<^verbatim>\<open>GetVolumes\<close> fail with the invalid-syntax error, and the world they leave is \<open>w1\<close>
  rolled back: no resolver has run for the malformed string or for any string after it.
\<close>

theorem C9_malformed_spec:
  assumes short: "length (Split mountSpec (CHR '','')) < 2"
  shows "(case getMounts env w (before @ mountSpec # after) contextDir workDir tmpDir of
            None \<Rightarrow> getMounts env w before contextDir workDir tmpDir = None
          | Some (w', r) \<Rightarrow> \<exists>e. r = Inl e)
       \<and> (getMounts env w before contextDir workDir tmpDir
             = Some (w1, Inr (unified, images, overlays, locks)) \<longrightarrow>
            getMounts env w (before @ mountSpec # after) contextDir workDir tmpDir
              = Some (rollback overlays images locks w1, Inl ErrInvalidSyntax)
          \<and> GetVolumes env w volumes (before @ mountSpec # after) contextDir workDir tmpDir
              = Some (rollback overlays images locks w1, Inl ErrInvalidSyntax))"
proof (intro conjI impI)
  show "case getMounts env w (before @ mountSpec # after) contextDir workDir tmpDir of
          None \<Rightarrow> getMounts env w before contextDir workDir tmpDir = None
        | Some (w', r) \<Rightarrow> \<exists>e. r = Inl e"
    by (simp add: getMounts_def getMountsLoop_short [OF short]
        split: prod.splits option.splits)
next
  assume ok: "getMounts env w before contextDir workDir tmpDir
                = Some (w1, Inr (unified, images, overlays, locks))"
  then obtain st1 where
    loop: "getMountsLoop env contextDir workDir tmpDir w mountsInit before = Some (w1, st1, None)"
    and st: "overlayDirs st1 = overlays" "mountedImages st1 = images" "targetLocks st1 = locks"
    by (auto simp: getMounts_def split: prod.splits option.splits)
  have "getMountsLoop env contextDir workDir tmpDir w mountsInit (before @ mountSpec # after)
          = Some (w1, st1, Some ErrInvalidSyntax)"
    by (simp add: getMountsLoop_short [OF short] loop)
  then show g: "getMounts env w (before @ mountSpec # after) contextDir workDir tmpDir
              = Some (rollback overlays images locks w1, Inl ErrInvalidSyntax)"
    by (simp add: getMounts_def st)
  show "GetVolumes env w volumes (before @ mountSpec # after) contextDir workDir tmpDir
              = Some (rollback overlays images locks w1, Inl ErrInvalidSyntax)"
    by (simp add: GetVolumes_def g)
qed

lemma single_token_is_short: "length (Split ''target'' (CHR '','')) < 2"
  by code_simp

lemma busybox_batch_resolves:
  "getMounts hostEnv emptyWorld [''from=busybox,target=/b''] [] ''/'' ''/tmp/b''
     = Some (\<lparr>MountedImages = [''img1''], OverlayTemps = [''/tmp/b/overlay0''], HeldLocks = [],
         TempSeq = 1\<rparr>,
        Inr ([(''/b'', \<lparr>Destination = ''/b'', Type = ''bind'',
                        Source = ''/tmp/b/overlay0/merge'', Options = [''bind'', ''slave'']\<rparr>)],
             [''img1''], [''/tmp/b/overlay0''], []))"
  by code_simp

text \<open>On the example host: after an image-backed bind mount has resolved, the single-token
  string \<^verbatim>\<open>target\<close> fails the batch; the image is unmounted and the overlay directory
  removed again.\<close>

theorem C9_malformed_spec_witness:
  "getMounts hostEnv emptyWorld
     [''from=busybox,target=/b'', ''target'', ''type=tmpfs,target=/x''] [] ''/'' ''/tmp/b''
     = Some (\<lparr>MountedImages = [], OverlayTemps = [], HeldLocks = [], TempSeq = 1\<rparr>,
        Inl ErrInvalidSyntax)"
  using C9_malformed_spec [OF single_token_is_short, where env = hostEnv and w = emptyWorld
      and before = "[''from=busybox,target=/b'']" and contextDir = "[]" and workDir = "''/''"
      and tmpDir = "''/tmp/b''" and after = "[''type=tmpfs,target=/x'']"]
    busybox_batch_resolves
  by (simp add: rollback_def RemoveTemp_def UnmountImage_def)

section \<open>What the bind resolver does to the world\<close>

lemma convertToOverlay_images:
  "convertToOverlay env w m tmpDir = (w', r) \<Longrightarrow>
     MountedImages w' = MountedImages w \<and> HeldLocks w' = HeldLocks w"
  by (auto simp: convertToOverlay_def Let_def RemoveTemp_def split: option.splits if_splits)

lemma bindFinish_facts:
  "bindFinish env w s m0 contextDir mountedImage tmpDir = (w', m, mi, od, r) \<Longrightarrow>
     MountedImages w' = MountedImages w \<and> HeldLocks w' = HeldLocks w
     \<and> (r \<noteq> None \<longrightarrow> mi = [] \<and> od = []) \<and> (r = None \<longrightarrow> mi = mountedImage)"
  by (auto simp: bindFinish_def Let_def split: option.splits if_splits sum.splits prod.splits
      dest: convertToOverlay_images)

text \<open>
  Claim C4.  A call of \<^verbatim>\<open>GetBindMount\<close> that returns an error returns the empty image ID
  and leaves the mounted images as it found them: an image the call has mounted for
  \<^verbatim>\<open>from=\<close> is unmounted again by the deferred function, at whichever later step the
  call fails.  A call that returns a non-empty image ID has succeeded, and then exactly
  that image has been added to the mounted images.
\<close>

theorem C4_failed_bind_unmounts_image:
  assumes "GetBindMount env w args contextDir additionalMountPoints workDir tmpDir
             = (w', m, imageID, overlayDir, r)"
  shows "(r \<noteq> None \<longrightarrow> imageID = [] \<and> MountedImages w' = MountedImages w)
       \<and> (r = None \<and> imageID \<noteq> [] \<longrightarrow> MountedImages w' = imageID # MountedImages w)"
  using assms
  by (auto simp: GetBindMount_def Let_def UnmountImage_def
      split: option.splits if_splits sum.splits prod.splits
      dest!: bindFinish_facts)

lemma busybox_without_target:
  "GetBindMount hostEnv emptyWorld [''type=bind'', ''from=busybox''] [] Map.empty ''/'' ''/tmp/b''
     = (emptyWorld,
        \<lparr>Destination = [], Type = ''bind'', Source = [], Options = [''ro'', ''rbind'']\<rparr>,
        [], [], Some ErrBadVolDest)"
  by code_simp

lemma busybox_with_target:
  "GetBindMount hostEnv emptyWorld [''type=bind'', ''from=busybox'', ''target=/data''] []
       Map.empty ''/'' ''/tmp/b''
     = (\<lparr>MountedImages = [''img1''], OverlayTemps = [''/tmp/b/overlay0''], HeldLocks = [],
         TempSeq = 1\<rparr>,
        \<lparr>Destination = ''/data'', Type = ''bind'', Source = ''/tmp/b/overlay0/merge'',
         Options = [''bind'', ''slave'']\<rparr>,
        ''img1'', ''/tmp/b/overlay0'', None)"
  by code_simp

text \<open>On the example host: \<^verbatim>\<open>from=busybox\<close> without a destination mounts the image, fails
  with the missing-destination error and leaves no image mounted; with a destination the
  call succeeds and the image stays mounted.\<close>

theorem C4_failed_bind_unmounts_image_witness:
  "MountedImages (fst (GetBindMount hostEnv emptyWorld [''type=bind'', ''from=busybox''] []
       Map.empty ''/'' ''/tmp/b'')) = MountedImages emptyWorld
   \<and> MountedImages (fst (GetBindMount hostEnv emptyWorld
       [''type=bind'', ''from=busybox'', ''target=/data''] [] Map.empty ''/'' ''/tmp/b''))
       = ''img1'' # MountedImages emptyWorld"
  using C4_failed_bind_unmounts_image [OF busybox_without_target]
    C4_failed_bind_unmounts_image [OF busybox_with_target]
  by (simp add: busybox_without_target busybox_with_target)

section \<open>The mount a successful bind resolution returns\<close>

lemma bindFinish_success:
  assumes "bindFinish env w s m0 contextDir mountedImage tmpDir
             = (w', m', imageID, overlayDir, None)"
  shows "\<exists>src opts.
           bindEvaluatedSource env contextDir (Source m0) = Some src
         \<and> ValidateVolumeOpts env (Options m0 @ (if bindNonRecursive s then [] else [''rbind'']))
              = Some opts
         \<and> imageID = mountedImage
         \<and> (if mountedImage \<noteq> [] \<or> lastReadability True opts
            then convertToOverlay env w (m0\<lparr>Source := src, Options := opts\<rparr>) tmpDir
                   = (w', m', overlayDir, None)
            else w' = w \<and> m' = m0\<lparr>Source := src, Options := opts\<rparr> \<and> overlayDir = [])"
  using assms
  by (auto simp: bindFinish_def bindEvaluatedSource_def Let_def appendOption_def
      mountIsReadWrite_def
      split: option.splits if_splits sum.splits prod.splits)

lemma GetBindMount_success:
  assumes run: "GetBindMount env w args contextDir additionalMountPoints workDir tmpDir
                  = (w', m', imageID, overlayDir, None)"
      and scan: "bindArgs env workDir bindInit args = Inr s"
  shows "\<exists>base src opts w0.
           bindContextDir env s contextDir additionalMountPoints = Some base
         \<and> bindEvaluatedSource env base (Source (newMount s)) = Some src
         \<and> ValidateVolumeOpts env
              (Options (newMount s) @ (if mountReadability s = [] then [''ro''] else [])
                 @ (if bindNonRecursive s then [] else [''rbind''])) = Some opts
         \<and> OverlayTemps w0 = OverlayTemps w \<and> TempSeq w0 = TempSeq w
         \<and> (imageID \<noteq> [] \<longrightarrow> w0 = w\<lparr>MountedImages := imageID # MountedImages w\<rparr>)
         \<and> (if imageID \<noteq> [] \<or> lastReadability True opts
            then convertToOverlay env w0 ((newMount s)\<lparr>Source := src, Options := opts\<rparr>) tmpDir
                   = (w', m', overlayDir, None)
            else w' = w0 \<and> m' = (newMount s)\<lparr>Source := src, Options := opts\<rparr>
                 \<and> overlayDir = [])"
proof -
  define m0 where
    "m0 = (if mountReadability s = [] then appendOption ''ro'' (newMount s) else newMount s)"
  have m0: "Source m0 = Source (newMount s)"
    "Options m0 @ (if bindNonRecursive s then [] else [''rbind''])
       = Options (newMount s) @ (if mountReadability s = [] then [''ro''] else [])
           @ (if bindNonRecursive s then [] else [''rbind''])"
    "\<And>src opts. m0\<lparr>Source := src, Options := opts\<rparr>
                  = (newMount s)\<lparr>Source := src, Options := opts\<rparr>"
    by (simp_all add: m0_def appendOption_def)
  obtain base w0 mountedImage where
    base: "bindContextDir env s contextDir additionalMountPoints = Some base"
    and fin: "bindFinish env w0 s m0 base mountedImage tmpDir
                = (w', m', imageID, overlayDir, None)"
    and w0: "OverlayTemps w0 = OverlayTemps w" "TempSeq w0 = TempSeq w"
      "mountedImage \<noteq> [] \<longrightarrow> w0 = w\<lparr>MountedImages := mountedImage # MountedImages w\<rparr>"
    using run
    by (auto simp: GetBindMount_def scan Let_def bindContextDir_def m0_def [symmetric]
        split: option.splits if_splits prod.splits)
  from bindFinish_success [OF fin] m0 base w0 show ?thesis
    by (auto split: if_splits)
qed

section \<open>Overlay of a single file\<close>







section \<open>The lock of a cache mount taken from a stage\<close>

lemma Join_lockfile: "Join [[], BuildahCacheLockfile] = ''buildah-cache-lockfile''"
  by code_simp

lemma lockfile_not_under: "\<not> prefix (p @ ''/'') ''buildah-cache-lockfile''"
proof
  assume "prefix (p @ ''/'') ''buildah-cache-lockfile''"
  then have "set (p @ ''/'') \<subseteq> set ''buildah-cache-lockfile''"
    by (rule set_mono_prefix)
  then show False by simp
qed

text \<open>
  Claim C10.  A cache mount whose tokens name a stage (\<^verbatim>\<open>from=\<close>) and the sharing mode
  \<^verbatim>\<open>locked\<close>, and that resolves, found the stage among the additional mount points as
  a non-image entry with a mount point; the lock it returns and holds is the lock file of
  the relative path \<^verbatim>\<open>buildah-cache-lockfile\<close>, whatever the stage, the id and the
  destination are.  That path is not absolute and does not lie under the per-user cache
  root.
\<close>

theorem C10_stage_cache_lock_path:
  assumes scan: "cacheArgs env workDir cacheInit args = Inr s"
      and stage: "fromStage s \<noteq> []"
      and locked: "sharing s = ''locked''"
      and run: "GetCacheMount env w args additionalMountPoints workDir = Some (w', m, lock, None)"
  shows "lock = Some ''buildah-cache-lockfile''
       \<and> HeldLocks w' = ''buildah-cache-lockfile'' # HeldLocks w
       \<and> \<not> IsAbs ''buildah-cache-lockfile''
       \<and> \<not> prefix (CacheParent env @ ''/'') ''buildah-cache-lockfile''
       \<and> (\<exists>v. additionalMountPoints (fromStage s) = Some v \<and> \<not> IsImage v \<and> MountPoint v \<noteq> [])"
proof -
  obtain m1 d where src: "cacheSource env s (cacheMount s) additionalMountPoints = Inr (m1, d)"
    using run scan stage locked
    by (auto simp: GetCacheMount_def Let_def split: option.splits if_splits sum.splits prod.splits)
  have d: "d = []"
    and st: "\<exists>v. additionalMountPoints (fromStage s) = Some v \<and> \<not> IsImage v \<and> MountPoint v \<noteq> []"
    using src stage
    by (auto simp: cacheSource_def Let_def split: option.splits if_splits)
  have "lock = Some ''buildah-cache-lockfile''
      \<and> HeldLocks w' = ''buildah-cache-lockfile'' # HeldLocks w"
    using run scan stage locked src d
    by (auto simp: GetCacheMount_def Let_def Join_lockfile split: option.splits if_splits)
  moreover have "\<not> IsAbs ''buildah-cache-lockfile''"
    by (simp add: IsAbs_def)
  ultimately show ?thesis
    using st lockfile_not_under by blast
qed

lemma stage_cache_scan:
  "cacheArgs hostEnv ''/'' cacheInit
       [''type=cache'', ''target=/c'', ''sharing=locked'', ''from=stage1'', ''id=foo'']
     = Inr (cacheInit\<lparr>cacheMount := (cacheMount cacheInit)\<lparr>Destination := ''/c''\<rparr>,
                      cacheSetDest := True, fromStage := ''stage1'', cacheID := ''foo'',
                      sharing := ''locked''\<rparr>)"
  by code_simp

lemma stage_cache_run:
  "GetCacheMount hostEnv emptyWorld
       [''type=cache'', ''target=/c'', ''sharing=locked'', ''from=stage1'', ''id=foo'']
       stageOne ''/''
     = Some (\<lparr>MountedImages = [], OverlayTemps = [], HeldLocks = [''buildah-cache-lockfile''],
              TempSeq = 0\<rparr>,
             \<lparr>Destination = ''/c'', Type = ''bind'', Source = ''/stages/1'',
              Options = [''shared'', ''rw'', ''bind'']\<rparr>,
             Some ''buildah-cache-lockfile'', None)"
  by code_simp

text \<open>On the example host, a locked cache mount from the stage \<^verbatim>\<open>stage1\<close> with the id
  \<^verbatim>\<open>foo\<close>.\<close>

theorem C10_stage_cache_lock_path_witness:
  "map_option (\<lambda>r. fst (snd (snd r))) (GetCacheMount hostEnv emptyWorld
       [''type=cache'', ''target=/c'', ''sharing=locked'', ''from=stage1'', ''id=foo'']
       stageOne ''/'') = Some (Some ''buildah-cache-lockfile'')
   \<and> \<not> prefix (CacheParent hostEnv @ ''/'') ''buildah-cache-lockfile''"
  using C10_stage_cache_lock_path [OF stage_cache_scan _ _ stage_cache_run]
  by (simp add: stage_cache_run)

section \<open>A sharing token without a value\<close>

text \<open>
  Claim C6 says that a bare \<^verbatim>\<open>sharing\<close> token fails with the error for a missing option
  argument.  The \<^verbatim>\<open>sharing\<close> case of the token loop does not look at \<^verbatim>\<open>hasArgValue\<close>,
  as the cases of \<^verbatim>\<open>id\<close>, \<^verbatim>\<open>from\<close>, \<^verbatim>\<open>mode\<close>, \<^verbatim>\<open>uid\<close>, \<^verbatim>\<open>gid\<close>, the source and
  the destination do: the loop accepts the token and sets the sharing mode to the empty
  string.  On the example host the mount then fails, after the cache directories have been
  created, with the error for an unrecognized sharing mode, which does not wrap
  \<^verbatim>\<open>errBadOptionArg\<close>; and with a later \<^verbatim>\<open>sharing=shared\<close> token the mount resolves.
\<close>

theorem C6_bare_sharing_token:
  "cacheArg env workDir s ''sharing'' = Inr (s\<lparr>sharing := []\<rparr>)
   \<and> GetCacheMount hostEnv emptyWorld [''type=cache'', ''target=/c'', ''sharing''] Map.empty ''/''
       = Some (emptyWorld,
               \<lparr>Destination = ''/c'', Type = ''bind'',
                Source = ''/var/tmp/buildah-cache-0/2f63000000000000'', Options = []\<rparr>,
               None, Some ErrUnrecognizedSharing)
   \<and> \<not> isBadOptionArg ErrUnrecognizedSharing
   \<and> GetCacheMount hostEnv emptyWorld
         [''type=cache'', ''target=/c'', ''sharing'', ''sharing=shared''] Map.empty ''/''
       = Some (emptyWorld,
               \<lparr>Destination = ''/c'', Type = ''bind'',
                Source = ''/var/tmp/buildah-cache-0/2f63000000000000'',
                Options = [''shared'', ''rw'', ''bind'']\<rparr>,
               None, None)"
proof (intro conjI)
  show "cacheArg env workDir s ''sharing'' = Inr (s\<lparr>sharing := []\<rparr>)"
    by (simp add: cacheArg_def Cut_def)
  show "GetCacheMount hostEnv emptyWorld [''type=cache'', ''target=/c'', ''sharing''] Map.empty ''/''
       = Some (emptyWorld,
               \<lparr>Destination = ''/c'', Type = ''bind'',
                Source = ''/var/tmp/buildah-cache-0/2f63000000000000'', Options = []\<rparr>,
               None, Some ErrUnrecognizedSharing)"
    by code_simp
  show "\<not> isBadOptionArg ErrUnrecognizedSharing"
    by (simp add: isBadOptionArg_def)
  show "GetCacheMount hostEnv emptyWorld
         [''type=cache'', ''target=/c'', ''sharing'', ''sharing=shared''] Map.empty ''/''
       = Some (emptyWorld,
               \<lparr>Destination = ''/c'', Type = ''bind'',
                Source = ''/var/tmp/buildah-cache-0/2f63000000000000'',
                Options = [''shared'', ''rw'', ''bind'']\<rparr>,
               None, None)"
    by code_simp
qed

section \<open>The mount type across the strings of a batch\<close>

text \<open>
  Claim C2 says that a mount string without a \<^verbatim>\<open>type=\<close> token is resolved as a bind
  mount whatever precedes it in the batch.  The variable \<^verbatim>\<open>mountType\<close> is declared once
  before the loop of \<^verbatim>\<open>getMounts\<close> (with the comment that an unset type defaults to
  bind) and is never reset: the scan of a string without \<^verbatim>\<open>type=\<close> leaves the type of
  the string before it in place.  On the example host the string
  \<^verbatim>\<open>src=/src/dir,target=/b\<close> resolves as a bind mount when it stands alone, and is
  handed to the tmpfs resolver, which rejects its source, when it follows a tmpfs mount.
\<close>

theorem C2_mount_type_carries_over:
  "scanType mt [''src=/src/dir'', ''target=/b''] = Some mt
   \<and> getMounts hostEnv emptyWorld [''src=/src/dir,target=/b''] [] ''/'' ''/tmp/b''
       = Some (emptyWorld,
               Inr ([(''/b'', \<lparr>Destination = ''/b'', Type = ''bind'', Source = ''/src/dir'',
                               Options = [''ro'', ''rbind'']\<rparr>)], [], [], []))
   \<and> getMounts hostEnv emptyWorld [''type=tmpfs,target=/a'', ''src=/src/dir,target=/b''] []
         ''/'' ''/tmp/b''
       = Some (emptyWorld, Inl ErrTmpfsSource)"
proof (intro conjI)
  show "scanType mt [''src=/src/dir'', ''target=/b''] = Some mt"
    by (simp add: HasPrefix_def)
  show "getMounts hostEnv emptyWorld [''src=/src/dir,target=/b''] [] ''/'' ''/tmp/b''
       = Some (emptyWorld,
               Inr ([(''/b'', \<lparr>Destination = ''/b'', Type = ''bind'', Source = ''/src/dir'',
                               Options = [''ro'', ''rbind'']\<rparr>)], [], [], []))"
    by code_simp
  show "getMounts hostEnv emptyWorld [''type=tmpfs,target=/a'', ''src=/src/dir,target=/b''] []
         ''/'' ''/tmp/b''
       = Some (emptyWorld, Inl ErrTmpfsSource)"
    by code_simp
qed

section \<open>The token loop of the bind resolver\<close>

lemma bindArg_Inr_facts:
  assumes "bindArg env workDir s val = Inr s'"
  shows "(setRelabel s \<noteq> [] \<longrightarrow> setRelabel s' \<noteq> [] \<and> argNameOf val \<noteq> ''relabel'')
       \<and> (argNameOf val = ''relabel'' \<longrightarrow> setRelabel s' \<noteq> [])
       \<and> labels (Options (newMount s')) =
           labels (Options (newMount s))
           + (if argNameOf val \<in> set [''Z'', ''z'', ''relabel''] then 1 else 0)
       \<and> (argNameOf val \<notin> set [''rw'', ''readwrite'', ''ro'', ''readonly''] \<longrightarrow>
            mountReadability s' = mountReadability s
          \<and> filter isReadability (Options (newMount s'))
              = filter isReadability (Options (newMount s)))"
  using assms
  by (cases "Cut val (CHR ''='')";
      simp add: bindArg_def Let_def argNameOf_def split: if_split_asm;
      (elim disjE)?;
      clarsimp simp: labels_def isLabel_def isReadability_def appendOption_def)

lemma bindArg_Inl_kinds:
  assumes "bindArg env workDir s val = Inl e"
  shows "e \<in> set [ErrBadOptionArg, ErrBadMntOption, ErrCollaborator, ErrRelabelTwice]"
  using assms
  by (cases "Cut val (CHR ''='')";
      simp add: bindArg_def Let_def split: if_split_asm)

lemma bindArgs_relabel_after:
  assumes "setRelabel s \<noteq> []" "\<exists>val \<in> set args. argNameOf val = ''relabel''"
  shows "isl (bindArgs env workDir s args)"
  using assms
proof (induction args arbitrary: s)
  case Nil
  then show ?case by simp
next
  case (Cons val args)
  show ?case
  proof (cases "bindArg env workDir s val")
    case (Inl e)
    then show ?thesis by simp
  next
    case (Inr s')
    from bindArg_Inr_facts [OF Inr] Cons.prems(1)
    have s': "setRelabel s' \<noteq> []" and nr: "argNameOf val \<noteq> ''relabel''" by auto
    with Cons.prems(2) have "\<exists>val \<in> set args. argNameOf val = ''relabel''" by auto
    from Cons.IH [OF s' this] Inr show ?thesis by simp
  qed
qed

lemma bindArgs_relabel_twice:
  assumes "2 \<le> length (filter (\<lambda>val. argNameOf val = ''relabel'') args)"
  shows "isl (bindArgs env workDir s args)"
  using assms
proof (induction args arbitrary: s)
  case Nil
  then show ?case by simp
next
  case (Cons val args)
  show ?case
  proof (cases "bindArg env workDir s val")
    case (Inl e)
    then show ?thesis by simp
  next
    case (Inr s')
    show ?thesis
    proof (cases "argNameOf val = ''relabel''")
      case True
      with Cons.prems have "1 \<le> length (filter (\<lambda>val. argNameOf val = ''relabel'') args)"
        by simp
      then have "filter (\<lambda>val. argNameOf val = ''relabel'') args \<noteq> []"
        by auto
      then have ex: "\<exists>val \<in> set args. argNameOf val = ''relabel''"
        by (simp add: filter_empty_conv)
      from bindArg_Inr_facts [OF Inr] True have "setRelabel s' \<noteq> []" by simp
      from bindArgs_relabel_after [OF this ex] Inr
      show ?thesis by simp
    next
      case False
      with Cons.prems have "2 \<le> length (filter (\<lambda>val. argNameOf val = ''relabel'') args)"
        by simp
      from Cons.IH [OF this] Inr show ?thesis by simp
    qed
  qed
qed

lemma bindArgs_labels:
  assumes "bindArgs env workDir s args = Inr s'"
  shows "labels (Options (newMount s')) =
           labels (Options (newMount s))
           + length (filter (\<lambda>val. argNameOf val \<in> set [''Z'', ''z'', ''relabel'']) args)"
  using assms
proof (induction args arbitrary: s)
  case Nil
  then show ?case by simp
next
  case (Cons val args)
  then obtain s1 where s1: "bindArg env workDir s val = Inr s1"
    and rest: "bindArgs env workDir s1 args = Inr s'"
    by (auto split: sum.splits)
  from Cons.IH [OF rest] bindArg_Inr_facts [OF s1] show ?case
    by simp
qed

lemma bindFinish_validated:
  assumes "bindFinish env w s m0 contextDir mountedImage tmpDir = (w', m', i, od, None)"
  shows "\<exists>opts. ValidateVolumeOpts env
            (Options m0 @ (if \<not> bindNonRecursive s then [''rbind''] else [])) = Some opts"
  using assms
  by (auto simp: bindFinish_def Let_def appendOption_def
      split: option.splits if_splits sum.splits prod.splits)

lemma GetBindMount_validated:
  assumes "GetBindMount env w args contextDir amp workDir tmpDir = (w', m', i, od, None)"
  shows "\<exists>s opts. bindArgs env workDir bindInit args = Inr s
           \<and> ValidateVolumeOpts env
                (Options (newMount s) @ (if mountReadability s = [] then [''ro''] else [])
                   @ (if \<not> bindNonRecursive s then [''rbind''] else [])) = Some opts"
proof -
  from assms obtain s where s: "bindArgs env workDir bindInit args = Inr s"
    by (auto simp: GetBindMount_def split: sum.splits prod.splits)
  define m0 where "m0 = (if mountReadability s = [] then appendOption ''ro'' (newMount s)
                    else newMount s)"
  have o0: "Options m0 = Options (newMount s) @ (if mountReadability s = [] then [''ro''] else [])"
    by (simp add: m0_def appendOption_def)
  from assms s obtain w0 c mi where "bindFinish env w0 s m0 c mi tmpDir = (w', m', i, od, None)"
    by (auto simp: GetBindMount_def Let_def m0_def [symmetric]
        split: option.splits if_splits prod.splits)
  from bindFinish_validated [OF this] o0 s show ?thesis
    by auto
qed

lemma GetBindMount_scan_error:
  assumes "isl (bindArgs env workDir bindInit args)"
  shows "\<exists>e m. GetBindMount env w args contextDir amp workDir tmpDir = (w, m, [], [], Some e)"
  using assms
  by (auto simp: GetBindMount_def isl_def split: prod.splits)

lemma labels_append: "labels (xs @ ys) = labels xs + labels ys"
  by (simp add: labels_def)

section \<open>Relabelling\<close>

text \<open>
  Claim C7.  In the token loop of \<^verbatim>\<open>GetBindMount\<close> the token \<^verbatim>\<open>relabel=private\<close>
  appends \<^verbatim>\<open>Z\<close> to the options and \<^verbatim>\<open>relabel=shared\<close> appends \<^verbatim>\<open>z\<close>, unless a
  \<^verbatim>\<open>relabel\<close> token came before, which is the error "cannot pass 'relabel' option more
  than once".  A mount with two \<^verbatim>\<open>relabel\<close> tokens fails in the token loop, before
  anything is mounted or created.  A mount with a \<^verbatim>\<open>Z\<close> or \<^verbatim>\<open>z\<close> token and a
  \<^verbatim>\<open>relabel\<close> token after it fails as well: the loop itself appends both markers, and
  the call then fails at the latest when \<^verbatim>\<open>parse.ValidateVolumeOpts\<close> is given the
  list, provided that validator rejects a list with more than one relabel marker
  (\<^verbatim>\<open>z\<close>, \<^verbatim>\<open>Z\<close>, \<^verbatim>\<open>O\<close>).
\<close>

theorem C7_relabel:
  "bindArg env workDir s ''relabel=private''
     = (if setRelabel s \<noteq> [] then Inl ErrRelabelTwice
        else Inr (s\<lparr>setRelabel := ''private'', newMount := appendOption ''Z'' (newMount s)\<rparr>))
   \<and> bindArg env workDir s ''relabel=shared''
     = (if setRelabel s \<noteq> [] then Inl ErrRelabelTwice
        else Inr (s\<lparr>setRelabel := ''shared'', newMount := appendOption ''z'' (newMount s)\<rparr>))
   \<and> (2 \<le> length (filter (\<lambda>val. argNameOf val = ''relabel'') args) \<longrightarrow>
        (\<exists>e m. GetBindMount env w args contextDir additionalMountPoints workDir tmpDir
                  = (w, m, [], [], Some e)))
   \<and> ((\<forall>opts. 2 \<le> labels opts \<longrightarrow> ValidateVolumeOpts env opts = None)
        \<and> args = before @ direct # mid @ relabel # after
        \<and> argNameOf direct \<in> set [''Z'', ''z'']
        \<and> argNameOf relabel = ''relabel'' \<longrightarrow>
        (\<exists>e. snd (snd (snd (snd (GetBindMount env w args contextDir additionalMountPoints
                                     workDir tmpDir)))) = Some e))"
proof (intro conjI impI)
  show "bindArg env workDir s ''relabel=private''
     = (if setRelabel s \<noteq> [] then Inl ErrRelabelTwice
        else Inr (s\<lparr>setRelabel := ''private'', newMount := appendOption ''Z'' (newMount s)\<rparr>))"
    by (simp add: bindArg_def Cut_def)
  show "bindArg env workDir s ''relabel=shared''
     = (if setRelabel s \<noteq> [] then Inl ErrRelabelTwice
        else Inr (s\<lparr>setRelabel := ''shared'', newMount := appendOption ''z'' (newMount s)\<rparr>))"
    by (simp add: bindArg_def Cut_def)
next
  assume "2 \<le> length (filter (\<lambda>val. argNameOf val = ''relabel'') args)"
  then have "isl (bindArgs env workDir bindInit args)"
    by (rule bindArgs_relabel_twice)
  then show "\<exists>e m. GetBindMount env w args contextDir additionalMountPoints workDir tmpDir
                  = (w, m, [], [], Some e)"
    by (rule GetBindMount_scan_error)
next
  assume h: "(\<forall>opts. 2 \<le> labels opts \<longrightarrow> ValidateVolumeOpts env opts = None)
        \<and> args = before @ direct # mid @ relabel # after
        \<and> argNameOf direct \<in> set [''Z'', ''z'']
        \<and> argNameOf relabel = ''relabel''"
  obtain w' m' i od r where
    run: "GetBindMount env w args contextDir additionalMountPoints workDir tmpDir
            = (w', m', i, od, r)"
    by (metis prod_cases5)
  have "r \<noteq> None"
  proof
    assume "r = None"
    with run GetBindMount_validated obtain sc opts where
      scan: "bindArgs env workDir bindInit args = Inr sc"
      and ok: "ValidateVolumeOpts env
                (Options (newMount sc) @ (if mountReadability sc = [] then [''ro''] else [])
                   @ (if \<not> bindNonRecursive sc then [''rbind''] else [])) = Some opts"
      by blast
    from h have "2 \<le> length (filter (\<lambda>val. argNameOf val \<in> set [''Z'', ''z'', ''relabel'']) args)"
      by auto
    with bindArgs_labels [OF scan] have "2 \<le> labels (Options (newMount sc))"
      by simp
    then have "2 \<le> labels (Options (newMount sc) @ (if mountReadability sc = [] then [''ro''] else [])
                   @ (if \<not> bindNonRecursive sc then [''rbind''] else []))"
      by (simp add: labels_append)
    with h ok show False by auto
  qed
  with run show "\<exists>e. snd (snd (snd (snd (GetBindMount env w args contextDir additionalMountPoints
                                     workDir tmpDir)))) = Some e"
    by auto
qed

lemma host_validator_rejects_two_labels:
  "\<forall>opts. 2 \<le> labels opts \<longrightarrow> ValidateVolumeOpts hostEnv opts = None"
proof -
  have "isLabel = (\<lambda>opt. opt = ''z'' \<or> opt = ''Z'' \<or> opt = ''O'')"
    by (auto simp: isLabel_def fun_eq_iff)
  then show ?thesis
    by (simp add: hostEnv_def hostValidateOpts_def atMostOneOf_def labels_def)
qed

text \<open>On the example host: \<^verbatim>\<open>Z\<close> followed by \<^verbatim>\<open>relabel=private\<close> is rejected, and
  so is \<^verbatim>\<open>relabel\<close> given twice.\<close>

theorem C7_relabel_witness:
  "(\<exists>e. snd (snd (snd (snd (GetBindMount hostEnv emptyWorld
        [''type=bind'', ''Z'', ''src=/s'', ''relabel=private'', ''target=/t''] [] Map.empty
        ''/'' ''/tmp/b'')))) = Some e)
   \<and> (\<exists>e m. GetBindMount hostEnv emptyWorld
        [''relabel=private'', ''relabel=shared'', ''target=/t''] [] Map.empty ''/'' ''/tmp/b''
        = (emptyWorld, m, [], [], Some e))"
proof -
  have two: "2 \<le> length (filter (\<lambda>val. argNameOf val = ''relabel'')
                 [''relabel=private'', ''relabel=shared'', ''target=/t''])"
    by (simp add: argNameOf_def Cut_def)
  have z: "argNameOf ''Z'' \<in> set [''Z'', ''z'']" and r: "argNameOf ''relabel=private'' = ''relabel''"
    by (simp_all add: argNameOf_def Cut_def)
  have split: "[''type=bind'', ''Z'', ''src=/s'', ''relabel=private'', ''target=/t'']
      = [''type=bind''] @ ''Z'' # [''src=/s''] @ ''relabel=private'' # [''target=/t'']"
    by simp
  from C7_relabel [where env = hostEnv and w = emptyWorld
      and args = "[''relabel=private'', ''relabel=shared'', ''target=/t'']"
      and contextDir = "[]" and additionalMountPoints = Map.empty and workDir = "''/''"
      and tmpDir = "''/tmp/b''"] two
  have a: "\<exists>e m. GetBindMount hostEnv emptyWorld
        [''relabel=private'', ''relabel=shared'', ''target=/t''] [] Map.empty ''/'' ''/tmp/b''
        = (emptyWorld, m, [], [], Some e)"
    by blast
  from C7_relabel [where env = hostEnv and w = emptyWorld
      and args = "[''type=bind'', ''Z'', ''src=/s'', ''relabel=private'', ''target=/t'']"
      and before = "[''type=bind'']" and direct = "''Z''" and mid = "[''src=/s'']"
      and relabel = "''relabel=private''" and after = "[''target=/t'']"
      and contextDir = "[]" and additionalMountPoints = Map.empty and workDir = "''/''"
      and tmpDir = "''/tmp/b''"] host_validator_rejects_two_labels z r split
  have b: "\<exists>e. snd (snd (snd (snd (GetBindMount hostEnv emptyWorld
        [''type=bind'', ''Z'', ''src=/s'', ''relabel=private'', ''target=/t''] [] Map.empty
        ''/'' ''/tmp/b'')))) = Some e"
    by blast
  from a b show ?thesis by blast
qed

section \<open>The default readability of a bind mount\<close>

lemma lastReadability_filter:
  "lastReadability b xs = lastReadability b (filter isReadability xs)"
  by (induction xs arbitrary: b) (auto simp: isReadability_def)

lemma bindArgs_readability:
  assumes "bindArgs env workDir s args = Inr s'"
      and "\<forall>val \<in> set args. argNameOf val \<notin> set [''rw'', ''readwrite'', ''ro'', ''readonly'']"
  shows "mountReadability s' = mountReadability s
       \<and> filter isReadability (Options (newMount s'))
           = filter isReadability (Options (newMount s))"
  using assms
proof (induction args arbitrary: s)
  case Nil
  then show ?case by simp
next
  case (Cons val args)
  then obtain s1 where s1: "bindArg env workDir s val = Inr s1"
    and rest: "bindArgs env workDir s1 args = Inr s'"
    by (auto split: sum.splits)
  from Cons.prems(2) have here: "argNameOf val \<notin> set [''rw'', ''readwrite'', ''ro'', ''readonly'']"
    and later: "\<forall>val \<in> set args. argNameOf val \<notin> set [''rw'', ''readwrite'', ''ro'', ''readonly'']"
    by simp_all
  from bindArg_Inr_facts [OF s1] here Cons.IH [OF rest later] show ?case
    by simp
qed

lemma validated_readonly:
  assumes "\<forall>xs ys. ValidateVolumeOpts env xs = Some ys \<longrightarrow>
                   filter isReadability ys = filter isReadability xs"
      and "ValidateVolumeOpts env xs = Some ys"
      and "filter isReadability xs = [''ro'']"
  shows "filter isReadability ys = [''ro''] \<and> \<not> lastReadability True ys"
proof -
  from assms have "filter isReadability ys = [''ro'']" by auto
  then show ?thesis
    by (simp add: lastReadability_filter [of True ys])
qed

lemma only_ro:
  assumes "filter isReadability xs = [''ro'']"
  shows "''ro'' \<in> set xs \<and> ''rw'' \<notin> set xs"
proof
  have "''ro'' \<in> set (filter isReadability xs)"
    using assms by simp
  then show "''ro'' \<in> set xs"
    by simp
  show "''rw'' \<notin> set xs"
  proof
    assume "''rw'' \<in> set xs"
    moreover have "isReadability ''rw''"
      by (simp add: isReadability_def)
    ultimately have "''rw'' \<in> set (filter isReadability xs)"
      by simp
    with assms show False
      by simp
  qed
qed

text \<open>
  Claim C5, as amended.  Take a bind mount whose tokens hold none of \<^verbatim>\<open>rw\<close>,
  \<^verbatim>\<open>readwrite\<close>, \<^verbatim>\<open>ro\<close>, \<^verbatim>\<open>readonly\<close>, an option validator that returns the
  readability options it was given, and a call of \<^verbatim>\<open>GetBindMount\<close> that succeeds.  The
  token loop has succeeded, with the scan \<open>s\<close>; the resolver has validated the options of
  the scan followed by \<^verbatim>\<open>ro\<close> (and by \<^verbatim>\<open>rbind\<close> unless the mount is non-recursive),
  and the validated list \<open>opts\<close> holds \<^verbatim>\<open>ro\<close> and not \<^verbatim>\<open>rw\<close>.  The mount the
  resolver has built is the one of the scan with the evaluated source \<open>src\<close> and the
  options \<open>opts\<close>.  If the call returns no image ID, this mount is returned as it is, and
  no overlay is synthesized (no overlay directory is returned or created).  If the call
  returns the ID of an image it has mounted, the returned mount and overlay directory are
  what \<^verbatim>\<open>convertToOverlay\<close> makes of this mount; the options of the returned mount are
  then the ones the overlay package gives it.
\<close>

theorem C5_default_readonly:
  assumes noTok: "\<forall>val \<in> set args.
                    argNameOf val \<notin> set [''rw'', ''readwrite'', ''ro'', ''readonly'']"
      and keeps: "\<forall>xs ys. ValidateVolumeOpts env xs = Some ys \<longrightarrow>
                    filter isReadability ys = filter isReadability xs"
      and run: "GetBindMount env w args contextDir additionalMountPoints workDir tmpDir
                  = (w', m', imageID, overlayDir, None)"
  shows "\<exists>s base src opts.
           bindArgs env workDir bindInit args = Inr s
         \<and> bindContextDir env s contextDir additionalMountPoints = Some base
         \<and> bindEvaluatedSource env base (Source (newMount s)) = Some src
         \<and> ValidateVolumeOpts env
              (Options (newMount s) @ [''ro'']
                 @ (if bindNonRecursive s then [] else [''rbind''])) = Some opts
         \<and> ''ro'' \<in> set opts \<and> ''rw'' \<notin> set opts
         \<and> (imageID = [] \<longrightarrow>
               m' = (newMount s)\<lparr>Source := src, Options := opts\<rparr>
             \<and> overlayDir = [] \<and> OverlayTemps w' = OverlayTemps w)
         \<and> (imageID \<noteq> [] \<longrightarrow>
               convertToOverlay env (w\<lparr>MountedImages := imageID # MountedImages w\<rparr>)
                 ((newMount s)\<lparr>Source := src, Options := opts\<rparr>) tmpDir
               = (w', m', overlayDir, None))"
proof -
  from run obtain s where scan: "bindArgs env workDir bindInit args = Inr s"
    by (auto simp: GetBindMount_def split: sum.splits prod.splits)
  from bindArgs_readability [OF scan noTok]
  have unset: "mountReadability s = []"
    and none: "filter isReadability (Options (newMount s)) = []"
    by (simp_all add: bindInit_def emptyMount_def)
  from GetBindMount_success [OF run scan] unset obtain base src opts w0 where
    base: "bindContextDir env s contextDir additionalMountPoints = Some base"
    and src: "bindEvaluatedSource env base (Source (newMount s)) = Some src"
    and opts: "ValidateVolumeOpts env
                 (Options (newMount s) @ [''ro'']
                    @ (if bindNonRecursive s then [] else [''rbind''])) = Some opts"
    and w0: "OverlayTemps w0 = OverlayTemps w"
      "imageID \<noteq> [] \<longrightarrow> w0 = w\<lparr>MountedImages := imageID # MountedImages w\<rparr>"
    and res: "if imageID \<noteq> [] \<or> lastReadability True opts
              then convertToOverlay env w0 ((newMount s)\<lparr>Source := src, Options := opts\<rparr>)
                     tmpDir = (w', m', overlayDir, None)
              else w' = w0 \<and> m' = (newMount s)\<lparr>Source := src, Options := opts\<rparr>
                   \<and> overlayDir = []"
    by auto
  have "filter isReadability
          (Options (newMount s) @ [''ro''] @ (if bindNonRecursive s then [] else [''rbind'']))
          = [''ro'']"
    using none by (simp add: isReadability_def)
  from validated_readonly [OF keeps opts this]
  have ro: "filter isReadability opts = [''ro'']" and nrw: "\<not> lastReadability True opts"
    by simp_all
  from only_ro [OF ro] have mem: "''ro'' \<in> set opts" "''rw'' \<notin> set opts"
    by simp_all
  have noimg: "imageID = [] \<longrightarrow>
                 m' = (newMount s)\<lparr>Source := src, Options := opts\<rparr>
               \<and> overlayDir = [] \<and> OverlayTemps w' = OverlayTemps w"
    using res nrw w0 by simp
  have img: "imageID \<noteq> [] \<longrightarrow>
               convertToOverlay env (w\<lparr>MountedImages := imageID # MountedImages w\<rparr>)
                 ((newMount s)\<lparr>Source := src, Options := opts\<rparr>) tmpDir
               = (w', m', overlayDir, None)"
    using res w0 by auto
  from scan base src opts mem noimg img show ?thesis
    by blast
qed

lemma no_readability_token:
  "\<forall>val \<in> set [''type=bind'', ''src=/src/dir'', ''target=/data''].
      argNameOf val \<notin> set [''rw'', ''readwrite'', ''ro'', ''readonly'']"
  by (simp add: argNameOf_def Cut_def)

lemma host_validator_keeps:
  "\<forall>xs ys. ValidateVolumeOpts hostEnv xs = Some ys \<longrightarrow>
      filter isReadability ys = filter isReadability xs"
  by (simp add: hostEnv_def hostValidateOpts_def)

lemma plain_bind_scan:
  "bindArgs hostEnv ''/'' bindInit [''type=bind'', ''src=/src/dir'', ''target=/data'']
     = Inr \<lparr>newMount = \<lparr>Destination = ''/data'', Type = ''bind'', Source = ''/src/dir'',
                          Options = []\<rparr>,
            setRelabel = [], mountReadability = [], setDest = ''/data'',
            bindNonRecursive = False, fromImage = []\<rparr>"
  by code_simp

lemma plain_bind_mount:
  "GetBindMount hostEnv emptyWorld [''type=bind'', ''src=/src/dir'', ''target=/data''] []
       Map.empty ''/'' ''/tmp/b''
     = (emptyWorld,
        \<lparr>Destination = ''/data'', Type = ''bind'', Source = ''/src/dir'',
         Options = [''ro'', ''rbind'']\<rparr>,
        [], [], None)"
  by code_simp

lemma busybox_no_readability_token:
  "\<forall>val \<in> set [''type=bind'', ''from=busybox'', ''target=/data''].
      argNameOf val \<notin> set [''rw'', ''readwrite'', ''ro'', ''readonly'']"
  by (simp add: argNameOf_def Cut_def)

lemma busybox_scan:
  "bindArgs hostEnv ''/'' bindInit [''type=bind'', ''from=busybox'', ''target=/data'']
     = Inr \<lparr>newMount = \<lparr>Destination = ''/data'', Type = ''bind'', Source = [], Options = []\<rparr>,
            setRelabel = [], mountReadability = [], setDest = ''/data'',
            bindNonRecursive = False, fromImage = ''busybox''\<rparr>"
  by code_simp

lemma busybox_source:
  "bindContextDir hostEnv
     \<lparr>newMount = \<lparr>Destination = ''/data'', Type = ''bind'', Source = [], Options = []\<rparr>,
      setRelabel = [], mountReadability = [], setDest = ''/data'',
      bindNonRecursive = False, fromImage = ''busybox''\<rparr> [] Map.empty = Some ''/mnt/img1''
   \<and> bindEvaluatedSource hostEnv ''/mnt/img1'' [] = Some ''/mnt/img1''
   \<and> ValidateVolumeOpts hostEnv [''ro'', ''rbind''] = Some [''ro'', ''rbind'']"
  by code_simp

text \<open>On the example host.  The bind mount of \<^verbatim>\<open>/src/dir\<close> at \<^verbatim>\<open>/data\<close> without a
  readability token: the validated options are \<^verbatim>\<open>ro\<close> and \<^verbatim>\<open>rbind\<close>, and they are
  the options of the returned mount.  The bind mount of the image \<^verbatim>\<open>busybox\<close> at
  \<^verbatim>\<open>/data\<close> without a readability token: what the call returns is what
  \<^verbatim>\<open>convertToOverlay\<close> makes of the mount of the image's mount point with the options
  \<^verbatim>\<open>ro\<close> and \<^verbatim>\<open>rbind\<close>.\<close>

theorem C5_default_readonly_witness:
  "(\<exists>opts. ValidateVolumeOpts hostEnv [''ro'', ''rbind''] = Some opts
      \<and> ''ro'' \<in> set opts \<and> ''rw'' \<notin> set opts
      \<and> Options (fst (snd (GetBindMount hostEnv emptyWorld
           [''type=bind'', ''src=/src/dir'', ''target=/data''] [] Map.empty ''/'' ''/tmp/b'')))
          = opts)
   \<and> convertToOverlay hostEnv (emptyWorld\<lparr>MountedImages := [''img1'']\<rparr>)
        \<lparr>Destination = ''/data'', Type = ''bind'', Source = ''/mnt/img1'',
         Options = [''ro'', ''rbind'']\<rparr> ''/tmp/b''
       = (\<lparr>MountedImages = [''img1''], OverlayTemps = [''/tmp/b/overlay0''], HeldLocks = [],
           TempSeq = 1\<rparr>,
          \<lparr>Destination = ''/data'', Type = ''bind'', Source = ''/tmp/b/overlay0/merge'',
           Options = [''bind'', ''slave'']\<rparr>,
          ''/tmp/b/overlay0'', None)"
proof
  from C5_default_readonly [OF no_readability_token host_validator_keeps plain_bind_mount]
  obtain s src opts where
    scan: "bindArgs hostEnv ''/'' bindInit [''type=bind'', ''src=/src/dir'', ''target=/data'']
             = Inr s"
    and opts: "ValidateVolumeOpts hostEnv
                 (Options (newMount s) @ [''ro'']
                    @ (if bindNonRecursive s then [] else [''rbind''])) = Some opts"
    and mem: "''ro'' \<in> set opts" "''rw'' \<notin> set opts"
    and res: "\<lparr>Destination = ''/data'', Type = ''bind'', Source = ''/src/dir'',
               Options = [''ro'', ''rbind'']\<rparr>
                = (newMount s)\<lparr>Source := src, Options := opts\<rparr>"
    by auto
  from res have "Options (fst (snd (GetBindMount hostEnv emptyWorld
       [''type=bind'', ''src=/src/dir'', ''target=/data''] [] Map.empty ''/'' ''/tmp/b''))) = opts"
    unfolding plain_bind_mount
    by (cases "newMount s") simp
  moreover from scan opts
  have "ValidateVolumeOpts hostEnv [''ro'', ''rbind''] = Some opts"
    unfolding plain_bind_scan by auto
  ultimately show "\<exists>opts. ValidateVolumeOpts hostEnv [''ro'', ''rbind''] = Some opts
      \<and> ''ro'' \<in> set opts \<and> ''rw'' \<notin> set opts
      \<and> Options (fst (snd (GetBindMount hostEnv emptyWorld
           [''type=bind'', ''src=/src/dir'', ''target=/data''] [] Map.empty ''/'' ''/tmp/b'')))
          = opts"
    using mem by blast
next
  from C5_default_readonly [OF busybox_no_readability_token host_validator_keeps
      busybox_with_target]
  obtain s base src opts where
    scan: "bindArgs hostEnv ''/'' bindInit [''type=bind'', ''from=busybox'', ''target=/data'']
             = Inr s"
    and base: "bindContextDir hostEnv s [] Map.empty = Some base"
    and src: "bindEvaluatedSource hostEnv base (Source (newMount s)) = Some src"
    and opts: "ValidateVolumeOpts hostEnv
                 (Options (newMount s) @ [''ro'']
                    @ (if bindNonRecursive s then [] else [''rbind''])) = Some opts"
    and res: "convertToOverlay hostEnv
                 (emptyWorld\<lparr>MountedImages := ''img1'' # MountedImages emptyWorld\<rparr>)
                 ((newMount s)\<lparr>Source := src, Options := opts\<rparr>) ''/tmp/b''
               = (\<lparr>MountedImages = [''img1''], OverlayTemps = [''/tmp/b/overlay0''],
                   HeldLocks = [], TempSeq = 1\<rparr>,
                  \<lparr>Destination = ''/data'', Type = ''bind'', Source = ''/tmp/b/overlay0/merge'',
                   Options = [''bind'', ''slave'']\<rparr>,
                  ''/tmp/b/overlay0'', None)"
    by auto
  from scan have s: "s = \<lparr>newMount = \<lparr>Destination = ''/data'', Type = ''bind'', Source = [],
                                        Options = []\<rparr>,
                          setRelabel = [], mountReadability = [], setDest = ''/data'',
                          bindNonRecursive = False, fromImage = ''busybox''\<rparr>"
    unfolding busybox_scan by simp
  from base busybox_source have b: "base = ''/mnt/img1''"
    unfolding s by simp
  from src busybox_source have sr: "src = ''/mnt/img1''"
    unfolding s b by simp
  from opts busybox_source have o: "opts = [''ro'', ''rbind'']"
    unfolding s by simp
  from res show "convertToOverlay hostEnv (emptyWorld\<lparr>MountedImages := [''img1'']\<rparr>)
        \<lparr>Destination = ''/data'', Type = ''bind'', Source = ''/mnt/img1'',
         Options = [''ro'', ''rbind'']\<rparr> ''/tmp/b''
       = (\<lparr>MountedImages = [''img1''], OverlayTemps = [''/tmp/b/overlay0''], HeldLocks = [],
           TempSeq = 1\<rparr>,
          \<lparr>Destination = ''/data'', Type = ''bind'', Source = ''/tmp/b/overlay0/merge'',
           Options = [''bind'', ''slave'']\<rparr>,
          ''/tmp/b/overlay0'', None)"
    unfolding s sr o by (simp add: emptyWorld_def)
qed

text \<open>
  Claim C5 as it was stated says that the returned mount of every such bind mount holds
  \<^verbatim>\<open>ro\<close>.  On the example host the image-backed mount \<^verbatim>\<open>from=busybox,target=/data\<close>
  has no readability token and resolves to the mount the overlay package returned, whose
  options are \<^verbatim>\<open>bind\<close> and \<^verbatim>\<open>slave\<close>.
\<close>

theorem C5_image_mount_counterexample:
  "\<not> (''ro'' \<in> set (Options (fst (snd (GetBindMount hostEnv emptyWorld
        [''type=bind'', ''from=busybox'', ''target=/data''] [] Map.empty ''/'' ''/tmp/b'')))))"
  by (simp add: busybox_with_target)

section \<open>Joining a name to a directory\<close>

lemma Split_nonempty: "Split s sep \<noteq> []"
  by (induction s) (auto split: list.splits)

lemma Split_append_sep: "Split (xs @ sep # ys) sep = Split xs sep @ Split ys sep"
proof (induction xs)
  case Nil
  then show ?case by simp
next
  case (Cons c cs)
  obtain x r where "Split cs sep = x # r"
    using Split_nonempty [of cs sep] by (cases "Split cs sep") auto
  with Cons show ?case by simp
qed

lemma Split_no_sep: "sep \<notin> set ys \<Longrightarrow> Split ys sep = [ys]"
  by (induction ys) auto

lemma cleanElems_snoc:
  assumes "a \<noteq> []" "a \<noteq> ''.''" "a \<noteq> ''..''"
  shows "cleanElems rooted acc (xs @ [a]) = cleanElems rooted acc xs @ [a]"
  using assms
  by (induction rooted acc xs rule: cleanElems.induct) (auto split: list.splits)

lemma joinSep_snoc:
  "joinSep (xs @ [a]) = (if xs = [] then a else joinSep xs @ CHR ''/'' # a)"
  by (induction xs rule: joinSep.induct) auto

lemma IsAbs_append: "p \<noteq> [] \<Longrightarrow> IsAbs (p @ q) = IsAbs p"
  by (cases p) (simp_all add: IsAbs_def)

lemma Join_name:
  assumes "p \<noteq> []"
  shows "\<exists>pre. \<forall>a. CHR ''/'' \<notin> set a \<and> a \<noteq> [] \<and> a \<noteq> ''.'' \<and> a \<noteq> ''..''
                   \<longrightarrow> Join [p, a] = pre @ a"
proof -
  define stem where "stem = cleanElems (IsAbs p) [] (Split p (CHR ''/''))"
  define pre where
    "pre = (if IsAbs p then ''/'' else []) @ (if stem = [] then [] else joinSep stem @ ''/'')"
  have "Join [p, a] = pre @ a"
    if a: "CHR ''/'' \<notin> set a" "a \<noteq> []" "a \<noteq> ''.''" "a \<noteq> ''..''" for a
  proof -
    have j: "Join [p, a] = Clean (p @ CHR ''/'' # a)"
      using assms by (simp add: Join_def)
    have s: "Split (p @ CHR ''/'' # a) (CHR ''/'') = Split p (CHR ''/'') @ [a]"
      by (simp add: Split_append_sep Split_no_sep a(1))
    have "cleanElems (IsAbs p) [] (Split p (CHR ''/'') @ [a]) = stem @ [a]"
      unfolding stem_def using a(2,3,4) by (rule cleanElems_snoc)
    then have "Clean (p @ CHR ''/'' # a) = pre @ a"
      using assms a(2)
      by (simp add: Clean_def s IsAbs_append joinSep_snoc pre_def)
    with j show ?thesis by simp
  qed
  then show ?thesis by blast
qed

lemma Join_name_inject:
  assumes "p \<noteq> []" "CHR ''/'' \<notin> set a" "CHR ''/'' \<notin> set b" "length a = 16" "length b = 16"
  shows "(Join [p, a] = Join [p, b]) = (a = b)"
proof -
  from Join_name [OF assms(1)] obtain pre where
    pre: "\<And>a. CHR ''/'' \<notin> set a \<Longrightarrow> a \<noteq> [] \<Longrightarrow> a \<noteq> ''.'' \<Longrightarrow> a \<noteq> ''..''
             \<Longrightarrow> Join [p, a] = pre @ a"
    by blast
  have "Join [p, a] = pre @ a"
    using assms(2,4) by (intro pre) auto
  moreover have "Join [p, b] = pre @ b"
    using assms(3,5) by (intro pre) auto
  ultimately show ?thesis by simp
qed

lemma Clean_nonempty: "Clean p \<noteq> []"
  by (simp add: Clean_def Let_def)

lemma Join_two_nonempty: "e \<noteq> [] \<Longrightarrow> Join [a, e] \<noteq> []"
  by (cases a) (simp_all add: Join_def Clean_nonempty)

lemma CacheParent_nonempty: "CacheParent env \<noteq> []"
  unfolding CacheParent_def by (rule Join_two_nonempty) (simp add: buildahCacheDir_def)

section \<open>The host directory of a cache mount\<close>

lemma appendOption_fields [simp]:
  "Destination (appendOption opt m) = Destination m"
  "Source (appendOption opt m) = Source m"
  "Type (appendOption opt m) = Type m"
  by (simp_all add: appendOption_def)

lemma cacheSource_host:
  assumes "cacheSource env s m0 amp = Inr (m1, d)" "fromStage s = []"
  shows "\<exists>dirID. cacheDirID env (cacheID s) (Destination m0) = Some dirID
           \<and> Source m1 = Join [CacheParent env, dirID] \<and> Destination m1 = Destination m0"
  using assms
  by (auto simp: cacheSource_def Let_def split: option.splits if_splits)

lemma GetCacheMount_host:
  assumes run: "GetCacheMount env w args amp workDir = Some (w', m, lock, None)"
      and scan: "cacheArgs env workDir cacheInit args = Inr s"
      and host: "fromStage s = []"
  shows "\<exists>dirID. cacheDirID env (cacheID s) (Destination (cacheMount s)) = Some dirID
           \<and> Source m = Join [CacheParent env, dirID]
           \<and> Destination m = Destination (cacheMount s)"
proof -
  define m0 where "m0 = (if \<not> foundSElinuxLabel s \<and> SelinuxEnforcing env \<and> fromStage s = []
                    then appendOption ''z'' (cacheMount s) else cacheMount s)"
  have d0: "Destination m0 = Destination (cacheMount s)"
    by (simp add: m0_def)
  from run scan obtain m1 d where src: "cacheSource env s m0 amp = Inr (m1, d)"
    and fin: "Source m = Source m1" "Destination m = Destination m1"
    by (auto simp: GetCacheMount_def Let_def m0_def [symmetric]
        split: option.splits if_splits sum.splits prod.splits)
  from cacheSource_host [OF src host] fin d0 show ?thesis
    by auto
qed

lemma cacheDirID_length:
  "cacheDirID env ident destination = Some dirID \<Longrightarrow>
     length dirID = 16
   \<and> dirID = take 16 (DigestEncoded env (if ident \<noteq> [] then ident else destination))"
  by (auto simp: cacheDirID_def Let_def split: if_splits)

text \<open>
  Claim C3, as amended.  Take two cache mounts that resolve against the host cache (no
  \<^verbatim>\<open>from=\<close>) on the same host, whose digests are written without the path separator
  (they are hexadecimal).  The key of a mount is its id if the id is not empty, and its
  destination otherwise, also when an empty id was given.  The source of each mount is
  the per-user cache root joined with a name of 16 characters, the first 16 characters of
  the digest of its key.  The two mounts have the same source exactly when the first 16
  characters of the digests of their keys agree.  Hence two mounts with the same non-empty
  id have the same source whatever their destinations are, and two mounts with an empty
  id have the same source when their destinations are equal.
\<close>

theorem C3_host_cache_directory:
  assumes sep: "\<forall>x. CHR ''/'' \<notin> set (DigestEncoded env x)"
      and run1: "GetCacheMount env w1 args1 amp1 workDir1 = Some (w1', m1, lock1, None)"
      and scan1: "cacheArgs env workDir1 cacheInit args1 = Inr s1"
      and host1: "fromStage s1 = []"
      and run2: "GetCacheMount env w2 args2 amp2 workDir2 = Some (w2', m2, lock2, None)"
      and scan2: "cacheArgs env workDir2 cacheInit args2 = Inr s2"
      and host2: "fromStage s2 = []"
  shows "Source m1 = Join [CacheParent env, take 16 (DigestEncoded env (cacheKey s1))]
       \<and> length (take 16 (DigestEncoded env (cacheKey s1))) = 16
       \<and> Destination m1 = Destination (cacheMount s1)
       \<and> (Source m1 = Source m2 \<longleftrightarrow>
            take 16 (DigestEncoded env (cacheKey s1)) = take 16 (DigestEncoded env (cacheKey s2)))
       \<and> (cacheID s1 \<noteq> [] \<and> cacheID s1 = cacheID s2 \<longrightarrow> Source m1 = Source m2)
       \<and> (cacheID s1 = [] \<and> cacheID s2 = [] \<and> Destination m1 = Destination m2 \<longrightarrow>
            Source m1 = Source m2)"
proof -
  let ?n1 = "take 16 (DigestEncoded env (cacheKey s1))"
  let ?n2 = "take 16 (DigestEncoded env (cacheKey s2))"
  from GetCacheMount_host [OF run1 scan1 host1] obtain d1 where
    d1: "cacheDirID env (cacheID s1) (Destination (cacheMount s1)) = Some d1"
    and src1: "Source m1 = Join [CacheParent env, d1]"
    and dst1: "Destination m1 = Destination (cacheMount s1)" by blast
  from GetCacheMount_host [OF run2 scan2 host2] obtain d2 where
    d2: "cacheDirID env (cacheID s2) (Destination (cacheMount s2)) = Some d2"
    and src2: "Source m2 = Join [CacheParent env, d2]"
    and dst2: "Destination m2 = Destination (cacheMount s2)" by blast
  have key: "\<And>s. (if cacheID s \<noteq> [] then cacheID s else Destination (cacheMount s))
                  = cacheKey s"
    by (simp add: cacheKey_def)
  from cacheDirID_length [OF d1] have n1: "d1 = ?n1" "length ?n1 = 16"
    unfolding key by blast+
  from cacheDirID_length [OF d2] have n2: "d2 = ?n2" "length ?n2 = 16"
    unfolding key by blast+
  have "CHR ''/'' \<notin> set ?n1" "CHR ''/'' \<notin> set ?n2"
    using sep by (auto dest: in_set_takeD)
  from Join_name_inject [OF CacheParent_nonempty this n1(2) n2(2)]
  have iff: "Source m1 = Source m2 \<longleftrightarrow> ?n1 = ?n2"
    by (simp add: src1 src2 n1(1) n2(1))
  have same_id: "cacheID s1 \<noteq> [] \<and> cacheID s1 = cacheID s2 \<longrightarrow> Source m1 = Source m2"
    unfolding iff by (simp add: cacheKey_def)
  have same_dest: "cacheID s1 = [] \<and> cacheID s2 = [] \<and> Destination m1 = Destination m2
                     \<longrightarrow> Source m1 = Source m2"
    unfolding iff by (simp add: cacheKey_def dst1 dst2)
  have src: "Source m1 = Join [CacheParent env, ?n1]"
    using src1 n1(1) by simp
  from src n1(2) dst1 iff same_id same_dest show ?thesis
    by blast
qed

lemma hexChar_no_separator: "hexChar d \<noteq> CHR ''/''"
proof -
  have "hexChar d \<in> set ''0123456789abcdef''"
    unfolding hexChar_def by (rule nth_mem) simp
  then show ?thesis by auto
qed

lemma host_digest_no_separator: "\<forall>x. CHR ''/'' \<notin> set (DigestEncoded hostEnv x)"
proof
  fix x
  have "c \<noteq> CHR ''/''"
    if "c \<in> set (concat (map (\<lambda>c. [hexChar (of_char c div 16), hexChar (of_char c)]) x)
                  @ replicate 64 (CHR ''0''))" for c
    using that by (auto simp: hexChar_no_separator hexChar_no_separator [symmetric])
  then have "CHR ''/'' \<notin> set (concat (map (\<lambda>c. [hexChar (of_char c div 16), hexChar (of_char c)]) x)
                           @ replicate 64 (CHR ''0''))"
    by blast
  then have "CHR ''/'' \<notin> set (hostDigest x)"
    unfolding hostDigest_def by (auto dest: in_set_takeD)
  then show "CHR ''/'' \<notin> set (DigestEncoded hostEnv x)"
    by (simp add: hostEnv_def)
qed

lemma cache_scan_foo_cache:
  "cacheArgs hostEnv ''/'' cacheInit [''type=cache'', ''target=/cache'', ''id=foo'']
     = Inr (cacheInit\<lparr>cacheMount := (cacheMount cacheInit)\<lparr>Destination := ''/cache''\<rparr>,
                      cacheSetDest := True, cacheID := ''foo''\<rparr>)"
  by code_simp

lemma cache_scan_foo_other:
  "cacheArgs hostEnv ''/'' cacheInit [''type=cache'', ''target=/other'', ''id=foo'']
     = Inr (cacheInit\<lparr>cacheMount := (cacheMount cacheInit)\<lparr>Destination := ''/other''\<rparr>,
                      cacheSetDest := True, cacheID := ''foo''\<rparr>)"
  by code_simp

lemma cache_run_foo_cache:
  "GetCacheMount hostEnv emptyWorld [''type=cache'', ''target=/cache'', ''id=foo''] Map.empty ''/''
     = Some (emptyWorld,
             \<lparr>Destination = ''/cache'', Type = ''bind'',
              Source = ''/var/tmp/buildah-cache-0/666f6f0000000000'',
              Options = [''shared'', ''rw'', ''bind'']\<rparr>,
             None, None)"
  by code_simp

lemma cache_run_foo_other:
  "GetCacheMount hostEnv emptyWorld [''type=cache'', ''target=/other'', ''id=foo''] Map.empty ''/''
     = Some (emptyWorld,
             \<lparr>Destination = ''/other'', Type = ''bind'',
              Source = ''/var/tmp/buildah-cache-0/666f6f0000000000'',
              Options = [''shared'', ''rw'', ''bind'']\<rparr>,
             None, None)"
  by code_simp

text \<open>On the example host, the id \<^verbatim>\<open>foo\<close> with the destinations \<^verbatim>\<open>/cache\<close> and
  \<^verbatim>\<open>/other\<close>: one directory, named by the digest of \<^verbatim>\<open>foo\<close>.\<close>

theorem C3_host_cache_directory_witness:
  "map_option (\<lambda>r. Source (fst (snd r))) (GetCacheMount hostEnv emptyWorld
       [''type=cache'', ''target=/cache'', ''id=foo''] Map.empty ''/'')
   = map_option (\<lambda>r. Source (fst (snd r))) (GetCacheMount hostEnv emptyWorld
       [''type=cache'', ''target=/other'', ''id=foo''] Map.empty ''/'')
   \<and> ''/var/tmp/buildah-cache-0/666f6f0000000000''
       = Join [CacheParent hostEnv, take 16 (DigestEncoded hostEnv ''foo'')]"
  using C3_host_cache_directory [OF host_digest_no_separator cache_run_foo_cache
      cache_scan_foo_cache _ cache_run_foo_other cache_scan_foo_other]
  by (simp add: cache_run_foo_cache cache_run_foo_other cacheInit_def cacheKey_def)

text \<open>
  Claim C3 as it was stated says that the name is derived from the explicit id if one was
  given, so that two resolutions with the same id have the same host directory whatever
  their destinations are.  The token \<^verbatim>\<open>id=\<close> gives the empty id: the token loop accepts
  it, and the directory is then named after the destination.  On the example host the
  two cache mounts \<^verbatim>\<open>target=/cache,id=\<close> and \<^verbatim>\<open>target=/other,id=\<close>, which are given
  the same id, resolve to two different host directories.
\<close>

theorem C3_empty_id_counterexample:
  "cacheArgs hostEnv ''/'' cacheInit [''type=cache'', ''target=/cache'', ''id='']
     = Inr (cacheInit\<lparr>cacheMount := (cacheMount cacheInit)\<lparr>Destination := ''/cache''\<rparr>,
                      cacheSetDest := True, cacheID := []\<rparr>)
   \<and> cacheArgs hostEnv ''/'' cacheInit [''type=cache'', ''target=/other'', ''id='']
     = Inr (cacheInit\<lparr>cacheMount := (cacheMount cacheInit)\<lparr>Destination := ''/other''\<rparr>,
                      cacheSetDest := True, cacheID := []\<rparr>)
   \<and> GetCacheMount hostEnv emptyWorld [''type=cache'', ''target=/cache'', ''id='']
         Map.empty ''/''
       = Some (emptyWorld,
               \<lparr>Destination = ''/cache'', Type = ''bind'',
                Source = ''/var/tmp/buildah-cache-0/2f63616368650000'',
                Options = [''shared'', ''rw'', ''bind'']\<rparr>,
               None, None)
   \<and> GetCacheMount hostEnv emptyWorld [''type=cache'', ''target=/other'', ''id='']
         Map.empty ''/''
       = Some (emptyWorld,
               \<lparr>Destination = ''/other'', Type = ''bind'',
                Source = ''/var/tmp/buildah-cache-0/2f6f746865720000'',
                Options = [''shared'', ''rw'', ''bind'']\<rparr>,
               None, None)
   \<and> ''/var/tmp/buildah-cache-0/2f63616368650000''
       \<noteq> ''/var/tmp/buildah-cache-0/2f6f746865720000''"
  by code_simp

section \<open>Side resources across a batch\<close>

lemma convertToOverlay_world:
  assumes "convertToOverlay env w m tmpDir = (w', m', od, None)" "handlesNonEmpty env"
  shows "MountedImages w' = MountedImages w \<and> HeldLocks w' = HeldLocks w
       \<and> od \<noteq> [] \<and> OverlayTemps w' = od # OverlayTemps w"
  using assms
  by (auto simp: convertToOverlay_def Let_def handlesNonEmpty_def split: option.splits if_splits)

lemma bindFinish_world:
  assumes "bindFinish env w s m0 contextDir mountedImage tmpDir = (w', m', i, od, None)"
      and "handlesNonEmpty env"
  shows "MountedImages w' = MountedImages w \<and> HeldLocks w' = HeldLocks w \<and> i = mountedImage
       \<and> OverlayTemps w' = (if od \<noteq> [] then od # OverlayTemps w else OverlayTemps w)"
  using assms
  by (auto simp: bindFinish_def Let_def
      split: option.splits if_splits sum.splits prod.splits
      dest!: convertToOverlay_world)

lemma GetBindMount_world:
  assumes "GetBindMount env w args contextDir amp workDir tmpDir = (w', m', i, od, None)"
      and "handlesNonEmpty env"
  shows "MountedImages w' = (if i \<noteq> [] then i # MountedImages w else MountedImages w)
       \<and> OverlayTemps w' = (if od \<noteq> [] then od # OverlayTemps w else OverlayTemps w)
       \<and> HeldLocks w' = HeldLocks w"
proof -
  from assms(2) have noEmpty: "\<And>name. LookupImage env name \<noteq> Some []"
    by (simp add: handlesNonEmpty_def)
  from assms(1) show ?thesis
    using noEmpty
    by (auto simp: GetBindMount_def Let_def
        split: option.splits if_splits sum.splits prod.splits
        dest!: bindFinish_world [OF _ assms(2)])
qed

lemma GetCacheMount_world:
  assumes "GetCacheMount env w args amp workDir = Some (w', m', lock, None)"
  shows "MountedImages w' = MountedImages w \<and> OverlayTemps w' = OverlayTemps w
       \<and> HeldLocks w' = (case lock of None \<Rightarrow> HeldLocks w | Some l \<Rightarrow> l # HeldLocks w)"
  using assms
  by (auto simp: GetCacheMount_def Let_def
      split: option.splits if_splits sum.splits prod.splits)


lemma bindArgs_Inl_kinds:
  assumes "bindArgs env workDir s args = Inl (e, m)"
  shows "e \<noteq> ErrDuplicateDest"
  using assms
proof (induction args arbitrary: s)
  case Nil
  then show ?case by simp
next
  case (Cons val args)
  show ?case
  proof (cases "bindArg env workDir s val")
    case (Inl e')
    with Cons.prems have "e = e'" by simp
    with bindArg_Inl_kinds [OF Inl] show ?thesis by auto
  next
    case (Inr s')
    with Cons.prems Cons.IH show ?thesis by simp
  qed
qed

lemma cacheArg_Inl_kinds:
  assumes "cacheArg env workDir s val = Inl e"
  shows "e \<noteq> ErrDuplicateDest"
  using assms
  by (cases "Cut val (CHR ''='')";
      simp add: cacheArg_def Let_def split: if_split_asm option.split_asm;
      clarsimp)

lemma cacheArgs_Inl_kinds:
  assumes "cacheArgs env workDir s args = Inl (e, m)"
  shows "e \<noteq> ErrDuplicateDest"
  using assms
proof (induction args arbitrary: s)
  case Nil
  then show ?case by simp
next
  case (Cons val args)
  show ?case
  proof (cases "cacheArg env workDir s val")
    case (Inl e')
    with Cons.prems have "e = e'" by simp
    with cacheArg_Inl_kinds [OF Inl] show ?thesis by auto
  next
    case (Inr s')
    with Cons.prems Cons.IH show ?thesis by simp
  qed
qed

lemma tmpfsArg_Inl_kinds:
  assumes "tmpfsArg env workDir s val = Inl e"
  shows "e \<noteq> ErrDuplicateDest"
  using assms
  by (cases "Cut val (CHR ''='')";
      simp add: tmpfsArg_def Let_def split: if_split_asm;
      clarsimp)

lemma tmpfsArgs_Inl_kinds:
  assumes "tmpfsArgs env workDir s args = Inl (e, m)"
  shows "e \<noteq> ErrDuplicateDest"
  using assms
proof (induction args arbitrary: s)
  case Nil
  then show ?case by simp
next
  case (Cons val args)
  show ?case
  proof (cases "tmpfsArg env workDir s val")
    case (Inl e')
    with Cons.prems have "e = e'" by simp
    with tmpfsArg_Inl_kinds [OF Inl] show ?thesis by auto
  next
    case (Inr s')
    with Cons.prems Cons.IH show ?thesis by simp
  qed
qed

lemma convertToOverlay_error:
  "convertToOverlay env w m tmpDir = (w', m', od, Some e) \<Longrightarrow> e \<noteq> ErrDuplicateDest"
  by (auto simp: convertToOverlay_def Let_def split: option.splits if_splits)

lemma bindFinish_error:
  "bindFinish env w s m0 contextDir mountedImage tmpDir = (w', m', i, od, Some e) \<Longrightarrow>
     e \<noteq> ErrDuplicateDest"
  by (auto simp: bindFinish_def Let_def
      split: option.splits if_splits sum.splits prod.splits
      dest!: convertToOverlay_error)

lemma GetBindMount_error:
  "GetBindMount env w args contextDir amp workDir tmpDir = (w', m', i, od, Some e) \<Longrightarrow>
     e \<noteq> ErrDuplicateDest"
  by (auto simp: GetBindMount_def Let_def
      split: option.splits if_splits sum.splits prod.splits
      dest!: bindFinish_error bindArgs_Inl_kinds)

lemma cacheSource_error:
  "cacheSource env s m amp = Inl (e, m') \<Longrightarrow> e \<noteq> ErrDuplicateDest"
  by (auto simp: cacheSource_def Let_def split: option.splits if_splits)

lemma GetCacheMount_error:
  "GetCacheMount env w args amp workDir = Some (w', m', lock, Some e) \<Longrightarrow>
     e \<noteq> ErrDuplicateDest"
  by (auto simp: GetCacheMount_def Let_def
      split: option.splits if_splits sum.splits prod.splits
      dest!: cacheSource_error cacheArgs_Inl_kinds)

lemma GetTmpfsMount_error:
  "GetTmpfsMount env args workDir = (m', Some e) \<Longrightarrow> e \<noteq> ErrDuplicateDest"
  by (auto simp: GetTmpfsMount_def
      split: option.splits if_splits sum.splits prod.splits
      dest!: tmpfsArgs_Inl_kinds)


lemma getMountsStep_cases:
  assumes "getMountsStep env c wd t w st x = Some (w1, st1, r)"
  shows "(\<exists>mt1 m. resolveEntry env c wd t w (mountType st) x = Some (w1, mt1, m))
       \<or> (r \<noteq> None \<and> r \<noteq> Some ErrDuplicateDest)"
  using assms
  by (auto simp: getMountsStep_def resolveEntry_def Let_def
      split: option.splits if_splits prod.splits
      dest: GetBindMount_error GetCacheMount_error GetTmpfsMount_error)

lemma getMountsStep_resolved:
  assumes res: "resolveEntry env c wd t w (mountType st) x = Some (w1, mt1, m)"
      and ne: "handlesNonEmpty env"
      and acc: "accounted base w st"
  shows "\<exists>st1. getMountsStep env c wd t w st x
                  = Some (w1, st1, if map_of (finalMounts st) (Destination m) \<noteq> None
                                   then Some ErrDuplicateDest else None)
           \<and> mountType st1 = mt1
           \<and> finalMounts st1 = (if map_of (finalMounts st) (Destination m) \<noteq> None
                                 then finalMounts st
                                 else finalMounts st @ [(Destination m, m)])
           \<and> accounted base w1 st1"
proof -
  define tokens where "tokens = Split x (CHR '','')"
  let ?dup = "map_of (finalMounts st) (Destination m) \<noteq> None"
  from res have long: "\<not> length tokens < 2"
    and sc: "scanType (mountType st) tokens = Some mt1"
    by (auto simp: resolveEntry_def Let_def tokens_def
        split: option.splits if_splits prod.splits)
  from res long sc consider
    (bind) i od where "mt1 = TypeBind"
      "GetBindMount env w tokens c Map.empty wd t = (w1, m, i, od, None)"
    | (cache) lock where "mt1 \<noteq> TypeBind" "mt1 = TypeCache"
      "GetCacheMount env w tokens Map.empty wd = Some (w1, m, lock, None)"
    | (tmpfs) "mt1 \<noteq> TypeBind" "mt1 \<noteq> TypeCache" "mt1 = TypeTmpfs"
      "GetTmpfsMount env tokens wd = (m, None)" "w1 = w"
    by (auto simp: resolveEntry_def Let_def tokens_def [symmetric]
        split: option.splits if_splits prod.splits)
  then show ?thesis
  proof cases
    case bind
    from GetBindMount_world [OF bind(2) ne] acc
    have held1: "accounted base w1
                   (st\<lparr>mountType := mt1,
                       mountedImages := mountedImages st @ (if i \<noteq> [] then [i] else []),
                       overlayDirs := overlayDirs st @ (if od \<noteq> [] then [od] else [])\<rparr>)"
      by (simp add: accounted_def held_def)
    have step: "getMountsStep env c wd t w st x =
            (let st3 = st\<lparr>mountType := mt1,
                           mountedImages := mountedImages st @ (if i \<noteq> [] then [i] else []),
                           overlayDirs := overlayDirs st @ (if od \<noteq> [] then [od] else [])\<rparr>
             in if ?dup then Some (w1, st3, Some ErrDuplicateDest)
                else Some (w1, st3\<lparr>finalMounts := finalMounts st @ [(Destination m, m)]\<rparr>,
                           None))"
      using long sc bind
      by (simp add: getMountsStep_def Let_def tokens_def [symmetric])
    show ?thesis
      unfolding step using held1
      by (cases ?dup) (simp_all add: Let_def accounted_def)
  next
    case cache
    from GetCacheMount_world [OF cache(3)] acc
    have held1: "accounted base w1
                   (st\<lparr>mountType := mt1,
                       targetLocks := targetLocks st
                          @ (case lock of None \<Rightarrow> [] | Some l \<Rightarrow> [l])\<rparr>)"
      by (simp add: accounted_def held_def split: option.splits)
    have step: "getMountsStep env c wd t w st x =
            (let st2 = st\<lparr>mountType := mt1,
                           targetLocks := targetLocks st
                             @ (case lock of None \<Rightarrow> [] | Some l \<Rightarrow> [l])\<rparr>
             in if ?dup then Some (w1, st2, Some ErrDuplicateDest)
                else Some (w1, st2\<lparr>finalMounts := finalMounts st @ [(Destination m, m)]\<rparr>,
                           None))"
      using long sc cache
      by (simp add: getMountsStep_def Let_def tokens_def [symmetric] split: option.splits)
    show ?thesis
      unfolding step using held1
      by (cases ?dup) (simp_all add: Let_def accounted_def)
  next
    case tmpfs
    from acc tmpfs(5)
    have held1: "accounted base w1 (st\<lparr>mountType := mt1\<rparr>)"
      by (simp add: accounted_def)
    have step: "getMountsStep env c wd t w st x =
            (let st1 = st\<lparr>mountType := mt1\<rparr>
             in if ?dup then Some (w1, st1, Some ErrDuplicateDest)
                else Some (w1, st1\<lparr>finalMounts := finalMounts st @ [(Destination m, m)]\<rparr>,
                           None))"
      using long sc tmpfs
      by (simp add: getMountsStep_def Let_def tokens_def [symmetric])
    show ?thesis
      unfolding step using held1
      by (cases ?dup) (simp_all add: Let_def accounted_def)
  qed
qed

lemma getMountsLoop_accounted:
  assumes "getMountsLoop env c wd t w st xs = Some (w', st', r)"
      and "r = None \<or> r = Some ErrDuplicateDest"
      and "handlesNonEmpty env"
      and "accounted base w st"
  shows "accounted base w' st'"
  using assms
proof (induction xs arbitrary: w st)
  case Nil
  then show ?case by simp
next
  case (Cons x xs)
  from Cons.prems(1) obtain w1 st1 r1 where
    step: "getMountsStep env c wd t w st x = Some (w1, st1, r1)"
    by (auto split: option.splits)
  have r1: "r1 = None \<or> r1 = Some ErrDuplicateDest"
    using Cons.prems(1,2) step by (cases r1) auto
  with getMountsStep_cases [OF step] obtain mt1 m where
    "resolveEntry env c wd t w (mountType st) x = Some (w1, mt1, m)"
    by auto
  from getMountsStep_resolved [OF this Cons.prems(3,4)] step
  have acc1: "accounted base w1 st1"
    by auto
  show ?case
  proof (cases r1)
    case None
    with Cons.prems(1) step have "getMountsLoop env c wd t w1 st1 xs = Some (w', st', r)"
      by simp
    from Cons.IH [OF this Cons.prems(2,3) acc1] show ?thesis .
  next
    case (Some e)
    with Cons.prems(1) step have "w' = w1" "st' = st1"
      by simp_all
    with acc1 show ?thesis by simp
  qed
qed

lemma map_of_keys: "(map_of xs k \<noteq> None) = (k \<in> set (map fst xs))"
  by (simp add: map_of_eq_None_iff)

lemma getMountsLoop_resolved:
  assumes "entryDestinations env c wd t w (mountType st) xs = Some ds"
      and "handlesNonEmpty env"
      and "accounted base w st"
      and "distinct (map fst (finalMounts st))"
  shows "\<exists>w' st'. getMountsLoop env c wd t w st xs
                    = Some (w', st', if distinct (map fst (finalMounts st) @ ds) then None
                                     else Some ErrDuplicateDest)
           \<and> (distinct (map fst (finalMounts st) @ ds) \<longrightarrow>
                 map fst (finalMounts st') = map fst (finalMounts st) @ ds)"
  using assms
proof (induction xs arbitrary: w st ds)
  case Nil
  then show ?case by simp
next
  case (Cons x xs)
  from Cons.prems(1) obtain w1 mt1 m ds1 where
    res: "resolveEntry env c wd t w (mountType st) x = Some (w1, mt1, m)"
    and rest: "entryDestinations env c wd t w1 mt1 xs = Some ds1"
    and ds: "ds = Destination m # ds1"
    by (auto split: option.splits)
  from getMountsStep_resolved [OF res Cons.prems(2,3)] obtain st1 where
    step: "getMountsStep env c wd t w st x
             = Some (w1, st1, if map_of (finalMounts st) (Destination m) \<noteq> None
                              then Some ErrDuplicateDest else None)"
    and mt: "mountType st1 = mt1"
    and fm: "finalMounts st1 = (if map_of (finalMounts st) (Destination m) \<noteq> None
                                 then finalMounts st
                                 else finalMounts st @ [(Destination m, m)])"
    and acc1: "accounted base w1 st1"
    by blast
  show ?case
  proof (cases "Destination m \<in> set (map fst (finalMounts st))")
    case True
    then have nd: "\<not> distinct (map fst (finalMounts st) @ ds)"
      using ds by auto
    have "map_of (finalMounts st) (Destination m) \<noteq> None"
      using True by (simp add: map_of_eq_None_iff)
    with step have "getMountsStep env c wd t w st x = Some (w1, st1, Some ErrDuplicateDest)"
      by auto
    then have loop: "getMountsLoop env c wd t w st (x # xs)
                       = Some (w1, st1, Some ErrDuplicateDest)"
      by simp
    have c: "(if distinct (map fst (finalMounts st) @ ds) then None else Some ErrDuplicateDest)
               = Some ErrDuplicateDest"
      using nd by (simp only: if_False)
    show ?thesis
      unfolding c using loop nd by blast
  next
    case False
    then have nodup: "map_of (finalMounts st) (Destination m) = None"
      by (simp add: map_of_eq_None_iff)
    with step fm have step': "getMountsStep env c wd t w st x = Some (w1, st1, None)"
      and fm': "map fst (finalMounts st1) = map fst (finalMounts st) @ [Destination m]"
      by simp_all
    from False Cons.prems(4) fm' have d1: "distinct (map fst (finalMounts st1))"
      by simp
    from rest mt have "entryDestinations env c wd t w1 (mountType st1) xs = Some ds1"
      by simp
    from Cons.IH [OF this Cons.prems(2) acc1 d1] obtain w' st' where
      loop: "getMountsLoop env c wd t w1 st1 xs
               = Some (w', st', if distinct (map fst (finalMounts st1) @ ds1) then None
                                else Some ErrDuplicateDest)"
      and keys: "distinct (map fst (finalMounts st1) @ ds1) \<longrightarrow>
                   map fst (finalMounts st') = map fst (finalMounts st1) @ ds1"
      by blast
    have eq: "map fst (finalMounts st1) @ ds1 = map fst (finalMounts st) @ ds"
      using fm' ds by simp
    have whole: "getMountsLoop env c wd t w st (x # xs) = getMountsLoop env c wd t w1 st1 xs"
      by (simp add: step')
    show ?thesis
      unfolding whole using loop [unfolded eq] keys [unfolded eq] by blast
  qed
qed

lemma fold_RemoveTemp:
  "MountedImages (foldl (\<lambda>w' d. RemoveTemp d w') w ds) = MountedImages w
   \<and> HeldLocks (foldl (\<lambda>w' d. RemoveTemp d w') w ds) = HeldLocks w
   \<and> mset (OverlayTemps (foldl (\<lambda>w' d. RemoveTemp d w') w ds)) = mset (OverlayTemps w) - mset ds"
  by (induction ds arbitrary: w) (simp_all add: RemoveTemp_def)

lemma fold_UnmountImage:
  "OverlayTemps (foldl (\<lambda>w' i. UnmountImage i w') w is) = OverlayTemps w
   \<and> HeldLocks (foldl (\<lambda>w' i. UnmountImage i w') w is) = HeldLocks w
   \<and> mset (MountedImages (foldl (\<lambda>w' i. UnmountImage i w') w is))
       = mset (MountedImages w) - mset is"
  by (induction "is" arbitrary: w) (simp_all add: UnmountImage_def)

lemma UnlockLockArray_held:
  "OverlayTemps (UnlockLockArray ls w) = OverlayTemps w
   \<and> MountedImages (UnlockLockArray ls w) = MountedImages w
   \<and> mset (HeldLocks (UnlockLockArray ls w)) = mset (HeldLocks w) - mset ls"
  by (induction ls arbitrary: w) (simp_all add: Unlock_def)

lemma rollback_held:
  assumes "accounted base w st"
  shows "held (rollback (overlayDirs st) (mountedImages st) (targetLocks st) w) = base"
  using assms
  by (simp add: accounted_def held_def rollback_def UnlockLockArray_held fold_UnmountImage
      fold_RemoveTemp prod_eq_iff)

lemma getVolumeMountsLoop_spec:
  assumes "volumeDestinations env volumes = Some ds"
      and "distinct (map fst acc)"
  shows "(distinct (map fst acc @ ds) \<longrightarrow>
            (\<exists>r. getVolumeMountsLoop env acc volumes = Inr r \<and> map fst r = map fst acc @ ds))
       \<and> (\<not> distinct (map fst acc @ ds) \<longrightarrow>
            getVolumeMountsLoop env acc volumes = Inl ErrDuplicateDest)"
  using assms
proof (induction volumes arbitrary: acc ds)
  case Nil
  then show ?case by simp
next
  case (Cons v vs)
  from Cons.prems(1) obtain m ds1 where
    p: "ParseVolume env v = Some m"
    and rest: "volumeDestinations env vs = Some ds1"
    and ds: "ds = Destination m # ds1"
    by (auto split: option.splits)
  show ?case
  proof (cases "Destination m \<in> set (map fst acc)")
    case True
    then have nd: "\<not> distinct (map fst acc @ ds)"
      using ds by auto
    have "map_of acc (Destination m) \<noteq> None"
      using True by (simp add: map_of_eq_None_iff)
    then have "getVolumeMountsLoop env acc (v # vs) = Inl ErrDuplicateDest"
      using p by auto
    with nd show ?thesis by blast
  next
    case False
    then have nodup: "map_of acc (Destination m) = None"
      by (simp add: map_of_eq_None_iff)
    have whole: "getVolumeMountsLoop env acc (v # vs)
                   = getVolumeMountsLoop env (acc @ [(Destination m, m)]) vs"
      using p nodup by simp
    have d1: "distinct (map fst (acc @ [(Destination m, m)]))"
      using False Cons.prems(2) by simp
    have eq: "map fst (acc @ [(Destination m, m)]) @ ds1 = map fst acc @ ds"
      using ds by simp
    from Cons.IH [OF rest d1] show ?thesis
      unfolding whole eq by blast
  qed
qed

lemma unifyLoop_spec:
  assumes "distinct (map fst unified)"
  shows "(distinct (map fst unified @ map fst volumeMounts) \<longrightarrow>
            (\<exists>r. unifyLoop unified volumeMounts = Inr r))
       \<and> (\<not> distinct (map fst unified @ map fst volumeMounts) \<longrightarrow>
            unifyLoop unified volumeMounts = Inl ErrDuplicateDest)"
  using assms
proof (induction volumeMounts arbitrary: unified)
  case Nil
  then show ?case by simp
next
  case (Cons dm vms)
  obtain d m where dm: "dm = (d, m)" by (cases dm)
  show ?case
  proof (cases "d \<in> set (map fst unified)")
    case True
    then have nd: "\<not> distinct (map fst unified @ map fst (dm # vms))"
      using dm by auto
    have "map_of unified d \<noteq> None"
      using True by (simp add: map_of_eq_None_iff)
    then have "unifyLoop unified (dm # vms) = Inl ErrDuplicateDest"
      using dm by auto
    with nd show ?thesis by blast
  next
    case False
    then have nodup: "map_of unified d = None"
      by (simp add: map_of_eq_None_iff)
    have whole: "unifyLoop unified (dm # vms) = unifyLoop (unified @ [(d, m)]) vms"
      using dm nodup by simp
    have d1: "distinct (map fst (unified @ [(d, m)]))"
      using False Cons.prems by simp
    have eq: "map fst (unified @ [(d, m)]) @ map fst vms = map fst unified @ map fst (dm # vms)"
      using dm by simp
    from Cons.IH [OF d1] show ?thesis
      unfolding whole eq by blast
  qed
qed

lemma accounted_init: "accounted (held w) w mountsInit"
  by (simp add: accounted_def mountsInit_def held_def)

lemma getMounts_duplicate_held:
  assumes "getMounts env w mounts c wd t = Some (w', Inl ErrDuplicateDest)"
      and "handlesNonEmpty env"
  shows "held w' = held w"
proof -
  from assms(1) obtain w1 st where
    loop: "getMountsLoop env c wd t w mountsInit mounts = Some (w1, st, Some ErrDuplicateDest)"
    and w': "w' = rollback (overlayDirs st) (mountedImages st) (targetLocks st) w1"
    by (auto simp: getMounts_def split: prod.splits option.splits)
  from getMountsLoop_accounted [OF loop _ assms(2) accounted_init]
  have "accounted (held w) w1 st" by simp
  from rollback_held [OF this] w' show ?thesis by simp
qed

lemma getMounts_success_accounted:
  assumes "getMounts env w mounts c wd t = Some (w1, Inr (unified, images, overlays, locks))"
      and "handlesNonEmpty env"
  shows "held (rollback overlays images locks w1) = held w"
proof -
  from assms(1) obtain st where
    loop: "getMountsLoop env c wd t w mountsInit mounts = Some (w1, st, None)"
    and st: "overlayDirs st = overlays" "mountedImages st = images" "targetLocks st = locks"
    by (auto simp: getMounts_def split: prod.splits option.splits)
  from getMountsLoop_accounted [OF loop _ assms(2) accounted_init]
  have "accounted (held w) w1 st" by simp
  from rollback_held [OF this] st show ?thesis by simp
qed

lemma GetVolumes_error_held:
  assumes run: "GetVolumes env w volumes mounts c wd t = Some (w', Inl ErrDuplicateDest)"
      and ne: "handlesNonEmpty env"
  shows "held w' = held w"
proof -
  from run obtain w1 r where gm: "getMounts env w mounts c wd t = Some (w1, r)"
    by (auto simp: GetVolumes_def split: option.splits)
  show ?thesis
  proof (cases r)
    case (Inl e)
    with gm run have "w' = w1" "e = ErrDuplicateDest"
      by (simp_all add: GetVolumes_def)
    with gm Inl getMounts_duplicate_held [OF _ ne] show ?thesis
      by simp
  next
    case (Inr res)
    obtain unified images overlays locks where res: "res = (unified, images, overlays, locks)"
      by (cases res)
    from gm Inr res run have "w' = rollback overlays images locks w1"
      by (auto simp: GetVolumes_def split: sum.splits)
    with getMounts_success_accounted [OF _ ne] gm Inr res show ?thesis
      by simp
  qed
qed

section \<open>Duplicate destinations\<close>

lemma getVolumeMountsLoop_append:
  "getVolumeMountsLoop env acc (xs @ ys) =
     (case getVolumeMountsLoop env acc xs of
        Inl e \<Rightarrow> Inl e
      | Inr r \<Rightarrow> getVolumeMountsLoop env r ys)"
  by (induction xs arbitrary: acc) (auto split: option.splits)

lemma getMounts_duplicates_fail:
  assumes ne: "handlesNonEmpty env"
      and ds: "entryDestinations env c wd t w TypeBind pre = Some ds"
      and nd: "\<not> distinct ds"
  shows "\<exists>w'. getMounts env w (pre @ post) c wd t = Some (w', Inl ErrDuplicateDest)"
proof -
  have mt: "mountType mountsInit = TypeBind" and fm: "finalMounts mountsInit = []"
    by (simp_all add: mountsInit_def)
  from getMountsLoop_resolved [OF ds [folded mt] ne accounted_init] nd obtain w1 st where
    "getMountsLoop env c wd t w mountsInit pre = Some (w1, st, Some ErrDuplicateDest)"
    by (auto simp: fm)
  then have "getMountsLoop env c wd t w mountsInit (pre @ post)
               = Some (w1, st, Some ErrDuplicateDest)"
    by (simp add: getMountsLoop_append)
  then show ?thesis
    by (simp add: getMounts_def)
qed

lemma getMounts_distinct_succeed:
  assumes ne: "handlesNonEmpty env"
      and ds: "entryDestinations env c wd t w TypeBind mounts = Some ds"
      and d: "distinct ds"
  shows "\<exists>w1 unified images overlays locks.
           getMounts env w mounts c wd t = Some (w1, Inr (unified, images, overlays, locks))
         \<and> map fst unified = ds"
proof -
  have mt: "mountType mountsInit = TypeBind" and fm: "finalMounts mountsInit = []"
    by (simp_all add: mountsInit_def)
  from getMountsLoop_resolved [OF ds [folded mt] ne accounted_init] d obtain w1 st where
    "getMountsLoop env c wd t w mountsInit mounts = Some (w1, st, None)"
    "map fst (finalMounts st) = ds"
    by (auto simp: fm)
  then show ?thesis
    by (simp add: getMounts_def)
qed

lemma GetVolumes_volume_duplicates_fail:
  assumes ne: "handlesNonEmpty env"
      and ds: "entryDestinations env c wd t w TypeBind mounts = Some ds"
      and vs: "volumeDestinations env vpre = Some vs"
      and nd: "\<not> distinct vs"
  shows "\<exists>w'. GetVolumes env w (vpre @ vpost) mounts c wd t = Some (w', Inl ErrDuplicateDest)"
proof (cases "distinct ds")
  case False
  from getMounts_duplicates_fail [OF ne ds False, of "[]"] show ?thesis
    by (auto simp: GetVolumes_def)
next
  case True
  from getMounts_distinct_succeed [OF ne ds True] obtain w1 unified images overlays locks where
    gm: "getMounts env w mounts c wd t = Some (w1, Inr (unified, images, overlays, locks))"
    by blast
  from getVolumeMountsLoop_spec [OF vs, of "[]"] nd
  have "getVolumeMountsLoop env [] vpre = Inl ErrDuplicateDest"
    by simp
  then have "getVolumeMounts env (vpre @ vpost) = Inl ErrDuplicateDest"
    by (simp add: getVolumeMounts_def getVolumeMountsLoop_append)
  with gm show ?thesis
    by (simp add: GetVolumes_def)
qed

lemma GetVolumes_duplicates_fail:
  assumes ne: "handlesNonEmpty env"
      and ds: "entryDestinations env c wd t w TypeBind mounts = Some ds"
      and vs: "volumeDestinations env volumes = Some vs"
      and nd: "\<not> distinct (ds @ vs)"
  shows "\<exists>w'. GetVolumes env w volumes mounts c wd t = Some (w', Inl ErrDuplicateDest)"
proof (cases "distinct ds")
  case False
  from getMounts_duplicates_fail [OF ne ds False, of "[]"] show ?thesis
    by (auto simp: GetVolumes_def)
next
  case True
  from getMounts_distinct_succeed [OF ne ds True] obtain w1 unified images overlays locks where
    gm: "getMounts env w mounts c wd t = Some (w1, Inr (unified, images, overlays, locks))"
    and k: "map fst unified = ds"
    by blast
  show ?thesis
  proof (cases "distinct vs")
    case False
    from GetVolumes_volume_duplicates_fail [OF ne ds vs False, of "[]"] show ?thesis
      by simp
  next
    case dv: True
    with getVolumeMountsLoop_spec [OF vs, of "[]"] obtain r where
      r: "getVolumeMounts env volumes = Inr r" and kr: "map fst r = vs"
      by (auto simp: getVolumeMounts_def)
    from True k have "distinct (map fst unified)" by simp
    from unifyLoop_spec [OF this, of r] nd k kr
    have "unifyLoop unified r = Inl ErrDuplicateDest"
      by simp
    with gm r show ?thesis
      by (simp add: GetVolumes_def)
  qed
qed

text \<open>
  Claim C1, as amended.  On a host whose images and overlay directories have non-empty
  names, with the strings resolved in turn as the batch resolves them (each in the world
  the earlier ones leave, which a string that fails or waits for ever does not do):

  \<^item> if the \<^verbatim>\<open>--mount\<close> strings \<open>pre\<close> resolve and two of them resolve to the same
    destination, then \<^verbatim>\<open>getMounts\<close> and \<^verbatim>\<open>GetVolumes\<close> fail with the
    duplicate-destination error, whatever strings \<open>post\<close> follow them and whatever the
    \<^verbatim>\<open>--volume\<close> strings are;
  \<^item> if all \<^verbatim>\<open>--mount\<close> strings resolve, the \<^verbatim>\<open>--volume\<close> strings \<open>vpre\<close> parse
    and two of them have the same destination, then \<^verbatim>\<open>GetVolumes\<close> fails with the
    duplicate-destination error, whatever \<^verbatim>\<open>--volume\<close> strings \<open>vpost\<close> follow them;
  \<^item> if all \<^verbatim>\<open>--mount\<close> strings resolve, all \<^verbatim>\<open>--volume\<close> strings parse and two
    of all these destinations are equal (in particular one of a mount and one of a
    volume), then \<^verbatim>\<open>GetVolumes\<close> fails with the duplicate-destination error;
  \<^item> in each of these cases, and whenever \<^verbatim>\<open>GetVolumes\<close> or \<^verbatim>\<open>getMounts\<close> fails
    with the duplicate-destination error, what is held afterwards is what was held before
    the call: every image mounted for the batch has been unmounted, every overlay
    directory removed, every lock released.
\<close>

theorem C1_duplicate_destination:
  assumes ne: "handlesNonEmpty env"
  shows "(entryDestinations env contextDir workDir tmpDir w TypeBind pre = Some ds
          \<and> \<not> distinct ds \<longrightarrow>
            (\<exists>w'. getMounts env w (pre @ post) contextDir workDir tmpDir
                     = Some (w', Inl ErrDuplicateDest) \<and> held w' = held w)
          \<and> (\<exists>w'. GetVolumes env w anyVolumes (pre @ post) contextDir workDir tmpDir
                     = Some (w', Inl ErrDuplicateDest) \<and> held w' = held w))
       \<and> (entryDestinations env contextDir workDir tmpDir w TypeBind mounts = Some ms
          \<and> volumeDestinations env vpre = Some vs \<and> \<not> distinct vs \<longrightarrow>
            (\<exists>w'. GetVolumes env w (vpre @ vpost) mounts contextDir workDir tmpDir
                     = Some (w', Inl ErrDuplicateDest) \<and> held w' = held w))
       \<and> (entryDestinations env contextDir workDir tmpDir w TypeBind mounts = Some ms
          \<and> volumeDestinations env volumes = Some vols \<and> \<not> distinct (ms @ vols) \<longrightarrow>
            (\<exists>w'. GetVolumes env w volumes mounts contextDir workDir tmpDir
                     = Some (w', Inl ErrDuplicateDest) \<and> held w' = held w))
       \<and> (GetVolumes env w volumes mounts contextDir workDir tmpDir
             = Some (w1, Inl ErrDuplicateDest) \<longrightarrow> held w1 = held w)
       \<and> (getMounts env w mounts contextDir workDir tmpDir
             = Some (w2, Inl ErrDuplicateDest) \<longrightarrow> held w2 = held w)"
proof (intro conjI impI)
  assume a: "entryDestinations env contextDir workDir tmpDir w TypeBind pre = Some ds
             \<and> \<not> distinct ds"
  then obtain w' where
    gm: "getMounts env w (pre @ post) contextDir workDir tmpDir = Some (w', Inl ErrDuplicateDest)"
    using getMounts_duplicates_fail [OF ne] by blast
  with getMounts_duplicate_held [OF gm ne]
  show "\<exists>w'. getMounts env w (pre @ post) contextDir workDir tmpDir
                 = Some (w', Inl ErrDuplicateDest) \<and> held w' = held w"
    by blast
  from gm have "GetVolumes env w anyVolumes (pre @ post) contextDir workDir tmpDir
                  = Some (w', Inl ErrDuplicateDest)"
    by (simp add: GetVolumes_def)
  with getMounts_duplicate_held [OF gm ne]
  show "\<exists>w'. GetVolumes env w anyVolumes (pre @ post) contextDir workDir tmpDir
                 = Some (w', Inl ErrDuplicateDest) \<and> held w' = held w"
    by blast
next
  assume "entryDestinations env contextDir workDir tmpDir w TypeBind mounts = Some ms
          \<and> volumeDestinations env vpre = Some vs \<and> \<not> distinct vs"
  then obtain w' where
    gv: "GetVolumes env w (vpre @ vpost) mounts contextDir workDir tmpDir
           = Some (w', Inl ErrDuplicateDest)"
    using GetVolumes_volume_duplicates_fail [OF ne] by blast
  with GetVolumes_error_held [OF gv ne]
  show "\<exists>w'. GetVolumes env w (vpre @ vpost) mounts contextDir workDir tmpDir
                 = Some (w', Inl ErrDuplicateDest) \<and> held w' = held w"
    by blast
next
  assume "entryDestinations env contextDir workDir tmpDir w TypeBind mounts = Some ms
          \<and> volumeDestinations env volumes = Some vols \<and> \<not> distinct (ms @ vols)"
  then obtain w' where
    gv: "GetVolumes env w volumes mounts contextDir workDir tmpDir
           = Some (w', Inl ErrDuplicateDest)"
    using GetVolumes_duplicates_fail [OF ne] by blast
  with GetVolumes_error_held [OF gv ne]
  show "\<exists>w'. GetVolumes env w volumes mounts contextDir workDir tmpDir
                 = Some (w', Inl ErrDuplicateDest) \<and> held w' = held w"
    by blast
next
  assume "GetVolumes env w volumes mounts contextDir workDir tmpDir
            = Some (w1, Inl ErrDuplicateDest)"
  from GetVolumes_error_held [OF this ne] show "held w1 = held w" .
next
  assume "getMounts env w mounts contextDir workDir tmpDir = Some (w2, Inl ErrDuplicateDest)"
  from getMounts_duplicate_held [OF this ne] show "held w2 = held w" .
qed

lemma showNat_nonempty: "showNat k \<noteq> []"
  by (subst showNat.simps) simp

lemma host_handles: "handlesNonEmpty hostEnv"
  by (simp add: handlesNonEmpty_def hostEnv_def Join_two_nonempty)

lemma host_mount_destinations:
  "entryDestinations hostEnv [] ''/'' ''/tmp/b'' emptyWorld TypeBind
     [''from=busybox,target=/b'', ''type=cache,target=/c,sharing=locked'']
     = Some [''/b'', ''/c'']"
  by code_simp

lemma host_volume_destinations:
  "volumeDestinations hostEnv [''/h:/c''] = Some [''/c'']"
  by code_simp

lemma host_colliding_mounts:
  "entryDestinations hostEnv [] ''/'' ''/tmp/b'' emptyWorld TypeBind
     [''from=busybox,target=/b'', ''type=cache,target=/c,sharing=locked'',
      ''type=tmpfs,target=/b'']
     = Some [''/b'', ''/c'', ''/b'']"
  by code_simp

lemma host_duplicate_batch:
  "GetVolumes hostEnv emptyWorld [''/h:/c'']
     [''from=busybox,target=/b'', ''type=cache,target=/c,sharing=locked''] [] ''/'' ''/tmp/b''
     = Some (\<lparr>MountedImages = [], OverlayTemps = [], HeldLocks = [], TempSeq = 1\<rparr>,
             Inl ErrDuplicateDest)"
  by code_simp

lemma host_colliding_mounts_batch:
  "GetVolumes hostEnv emptyWorld [''nocolon'']
     ([''from=busybox,target=/b'', ''type=cache,target=/c,sharing=locked'',
       ''type=tmpfs,target=/b''] @ [''target''])
     [] ''/'' ''/tmp/b''
     = Some (\<lparr>MountedImages = [], OverlayTemps = [], HeldLocks = [], TempSeq = 1\<rparr>,
             Inl ErrDuplicateDest)"
  by code_simp

text \<open>On the example host.  An image-backed bind mount at \<^verbatim>\<open>/b\<close>, a locked cache mount
  at \<^verbatim>\<open>/c\<close> and a volume at \<^verbatim>\<open>/c\<close>: the image, the overlay directory and the lock
  are acquired and released again.  The same two mounts followed by a tmpfs mount at
  \<^verbatim>\<open>/b\<close>: the batch fails with the duplicate-destination error although a malformed
  mount string follows and the volume string does not parse.\<close>

theorem C1_duplicate_destination_witness:
  "GetVolumes hostEnv emptyWorld [''/h:/c'']
     [''from=busybox,target=/b'', ''type=cache,target=/c,sharing=locked''] [] ''/'' ''/tmp/b''
     = Some (\<lparr>MountedImages = [], OverlayTemps = [], HeldLocks = [], TempSeq = 1\<rparr>,
             Inl ErrDuplicateDest)
   \<and> held \<lparr>MountedImages = [], OverlayTemps = [], HeldLocks = [], TempSeq = 1\<rparr>
       = held emptyWorld
   \<and> (\<exists>w'. GetVolumes hostEnv emptyWorld [''nocolon'']
              ([''from=busybox,target=/b'', ''type=cache,target=/c,sharing=locked'',
                ''type=tmpfs,target=/b''] @ [''target''])
              [] ''/'' ''/tmp/b''
            = Some (w', Inl ErrDuplicateDest) \<and> held w' = held emptyWorld)"
proof -
  have nd: "\<not> distinct ([''/b'', ''/c''] @ [''/c''])" "\<not> distinct [''/b'', ''/c'', ''/b'']"
    by simp_all
  note c1 = C1_duplicate_destination [OF host_handles, where w = emptyWorld
      and contextDir = "[]" and workDir = "''/''" and tmpDir = "''/tmp/b''"
      and mounts = "[''from=busybox,target=/b'', ''type=cache,target=/c,sharing=locked'']"
      and volumes = "[''/h:/c'']" and ms = "[''/b'', ''/c'']" and vols = "[''/c'']"
      and pre = "[''from=busybox,target=/b'', ''type=cache,target=/c,sharing=locked'',
                  ''type=tmpfs,target=/b'']"
      and post = "[''target'']" and ds = "[''/b'', ''/c'', ''/b'']"
      and anyVolumes = "[''nocolon'']"]
  from c1 host_mount_destinations host_volume_destinations nd(1)
  have "\<exists>w'. GetVolumes hostEnv emptyWorld [''/h:/c'']
     [''from=busybox,target=/b'', ''type=cache,target=/c,sharing=locked''] [] ''/'' ''/tmp/b''
     = Some (w', Inl ErrDuplicateDest) \<and> held w' = held emptyWorld"
    by blast
  then have first: "held \<lparr>MountedImages = [], OverlayTemps = [], HeldLocks = [], TempSeq = 1\<rparr>
                      = held emptyWorld"
    unfolding host_duplicate_batch by simp
  from c1 host_colliding_mounts nd(2)
  have "\<exists>w'. GetVolumes hostEnv emptyWorld [''nocolon'']
              ([''from=busybox,target=/b'', ''type=cache,target=/c,sharing=locked'',
                ''type=tmpfs,target=/b''] @ [''target''])
              [] ''/'' ''/tmp/b''
            = Some (w', Inl ErrDuplicateDest) \<and> held w' = held emptyWorld"
    by blast
  with first host_duplicate_batch show ?thesis
    by blast
qed

text \<open>
  Claim C1 as it was stated says that every batch with two entries that resolve to the same
  destination fails with the duplicate-destination error.  On the example host:

  \<^item> the cache mount \<^verbatim>\<open>type=cache,target=/c,sharing=locked\<close> resolves to \<^verbatim>\<open>/c\<close>, and
    the batch of two such strings does not return: the second waits for the lock of the
    cache entry, which the first holds, before any destination is compared;
  \<^item> the tmpfs mount \<^verbatim>\<open>type=tmpfs,target=/c\<close> resolves to \<^verbatim>\<open>/c\<close>, and the batch of
    the malformed string \<^verbatim>\<open>target\<close> followed by two such mounts fails with the
    invalid-syntax error;
  \<^item> the volume \<^verbatim>\<open>/h:/c\<close> has the destination \<^verbatim>\<open>/c\<close>, and the batch of the tmpfs
    mount, this volume and the volume \<^verbatim>\<open>nocolon\<close>, which does not parse, fails with the
    error of the volume parser.
\<close>

theorem C1_other_outcome_counterexample:
  "entryDestinations hostEnv [] ''/'' ''/tmp/b'' emptyWorld TypeBind
       [''type=cache,target=/c,sharing=locked''] = Some [''/c'']
   \<and> getMounts hostEnv emptyWorld
         [''type=cache,target=/c,sharing=locked'', ''type=cache,target=/c,sharing=locked'']
         [] ''/'' ''/tmp/b'' = None
   \<and> GetVolumes hostEnv emptyWorld []
         [''type=cache,target=/c,sharing=locked'', ''type=cache,target=/c,sharing=locked'']
         [] ''/'' ''/tmp/b'' = None
   \<and> entryDestinations hostEnv [] ''/'' ''/tmp/b'' emptyWorld TypeBind
         [''type=tmpfs,target=/c''] = Some [''/c'']
   \<and> GetVolumes hostEnv emptyWorld []
         [''target'', ''type=tmpfs,target=/c'', ''type=tmpfs,target=/c'']
         [] ''/'' ''/tmp/b'' = Some (emptyWorld, Inl ErrInvalidSyntax)
   \<and> volumeDestinations hostEnv [''/h:/c''] = Some [''/c'']
   \<and> GetVolumes hostEnv emptyWorld [''/h:/c'', ''nocolon''] [''type=tmpfs,target=/c'']
         [] ''/'' ''/tmp/b'' = Some (emptyWorld, Inl ErrCollaborator)"
  by code_simp

end
